theory Spec2Isabelle
  imports Main "HOL-Library.Sublist"
begin

text \<open>
  The sources: \<open>routes/ai.js\<close> is \<open>src/unnamed/part_002\<close> (from its line 23 on),
  \<open>routes/stories.js\<close> is \<open>src/unnamed/part_005\<close>, \<open>routes/child.js\<close> is
  \<open>src/unnamed/part_003\<close> (from its line 465 on) and \<open>models/Story.js\<close> is the first
  file of \<open>src/unnamed/part_001\<close>. Line numbers are those of these files.
\<close>

section \<open>JavaScript strings\<close>

text \<open>
  A JavaScript string is a sequence of UTF-16 code units; \<open>substring\<close>, \<open>split\<close>
  and the regular expressions of \<open>routes/ai.js\<close> all count code units. The separators
  of the line parser contain U+2014 and U+2013, so a string is modelled as a list of
  code units (natural numbers) rather than of 8-bit characters. \<open>js\<close> embeds an
  ASCII literal.
\<close>

type_synonym jschar = nat
type_synonym jsstring = "jschar list"

definition js :: "string \<Rightarrow> jsstring" where
  "js s = map of_char s"

text \<open>
  The class \<open>\s\<close> of a JavaScript regular expression and the characters removed by
  \<open>String.prototype.trim\<close> are the same set: WhiteSpace and LineTerminator.
\<close>

definition isWhite :: "jschar \<Rightarrow> bool" where
  "isWhite c \<longleftrightarrow>
     c = 9 \<or> c = 10 \<or> c = 11 \<or> c = 12 \<or> c = 13 \<or> c = 32 \<or> c = 160 \<or> c = 5760 \<or>
     (8192 \<le> c \<and> c \<le> 8202) \<or> c = 8232 \<or> c = 8233 \<or> c = 8239 \<or> c = 8287 \<or>
     c = 12288 \<or> c = 65279"

text \<open>The class \<open>\d\<close>: the ASCII digits.\<close>

definition isDigit :: "jschar \<Rightarrow> bool" where
  "isDigit c \<longleftrightarrow> 48 \<le> c \<and> c \<le> 57"

definition trim :: "jsstring \<Rightarrow> jsstring" where
  "trim s = rev (dropWhile isWhite (rev (dropWhile isWhite s)))"

text \<open>\<open>s.substring(0, n)\<close> for a constant \<open>n \<ge> 0\<close>.\<close>

definition substring0 :: "nat \<Rightarrow> jsstring \<Rightarrow> jsstring" where
  "substring0 n s = take n s"

text \<open>
  \<open>s.split(sep)\<close> for a non-empty string separator: the occurrences of \<open>sep\<close> are
  found from left to right, without overlap. \<open>cur\<close> is the segment read so far.
\<close>

function splitFrom :: "jsstring \<Rightarrow> jsstring \<Rightarrow> jsstring \<Rightarrow> jsstring list" where
  "splitFrom sep cur [] = [cur]"
| "splitFrom sep cur (c # cs) =
     (if sep \<noteq> [] \<and> take (length sep) (c # cs) = sep
      then cur # splitFrom sep [] (drop (length sep) (c # cs))
      else splitFrom sep (cur @ [c]) cs)"
  by pat_completeness auto
termination
  by (relation "measure (\<lambda>(sep, cur, s). length s)") auto

definition split :: "jsstring \<Rightarrow> jsstring \<Rightarrow> jsstring list" where
  "split sep s = splitFrom sep [] s"

text \<open>\<open>text.split(/\r?\n/)\<close>: a line ends at LF or at CR LF; a lone CR ends nothing.\<close>

fun splitLinesFrom :: "jsstring \<Rightarrow> jsstring \<Rightarrow> jsstring list" where
  "splitLinesFrom cur [] = [cur]"
| "splitLinesFrom cur [c] = (if c = 10 then [cur, []] else [cur @ [c]])"
| "splitLinesFrom cur (c # d # cs) =
     (if c = 13 \<and> d = 10 then cur # splitLinesFrom [] cs
      else if c = 10 then cur # splitLinesFrom [] (d # cs)
      else splitLinesFrom (cur @ [c]) (d # cs))"

definition splitLines :: "jsstring \<Rightarrow> jsstring list" where
  "splitLines s = splitLinesFrom [] s"

text \<open>\<open>parts.join(sep)\<close>.\<close>

fun join :: "jsstring \<Rightarrow> jsstring list \<Rightarrow> jsstring" where
  "join sep [] = []"
| "join sep [p] = p"
| "join sep (p # q # ps) = p @ sep @ join sep (q # ps)"

text \<open>The decimal rendering of a non-negative integer, as a template literal prints it.\<close>

fun showNat :: "nat \<Rightarrow> jsstring" where
  "showNat n = (if n < 10 then [48 + n] else showNat (n div 10) @ [48 + n mod 10])"

declare showNat.simps [simp del]

text \<open>\<open>parseInt(ds, 10)\<close> on a string of decimal digits.\<close>

definition digitsVal :: "jsstring \<Rightarrow> int" where
  "digitsVal ds = foldl (\<lambda>v c. 10 * v + (int c - 48)) 0 ds"

section \<open>Candidates\<close>

record ageRange =
  ar_min :: int
  ar_max :: int

record candidate =
  title :: jsstring
  description :: jsstring
  content :: jsstring
  duration :: int
  ageRange :: ageRange

text \<open>
  \<open>{ min: Math.max(2, childAge - 2), max: Math.min(12, childAge + 2) }\<close>, written at
  line 213 (line parser) and again at line 278 (JSON branch) of \<open>routes/ai.js\<close>.
\<close>

definition deriveAgeRange :: "int \<Rightarrow> ageRange" where
  "deriveAgeRange childAge = \<lparr> ar_min = max 2 (childAge - 2), ar_max = min 12 (childAge + 2) \<rparr>"

section \<open>The line parser: \<open>parseGeneratedText\<close>\<close>

definition sepHyphen :: jsstring where "sepHyphen = [32, 45, 32]"
definition sepEmDash :: jsstring where "sepEmDash = [32, 8212, 32]"
definition sepEnDash :: jsstring where "sepEnDash = [32, 8211, 32]"
definition sepColon :: jsstring where "sepColon = [58]"
definition sepBar :: jsstring where "sepBar = [32, 124, 32]"

text \<open>Lines 188-192: the five splits, each tried only while fewer than 3 parts were found.\<close>

definition lineParts :: "jsstring \<Rightarrow> jsstring list" where
  "lineParts line =
     (let parts = split sepHyphen line;
          parts = (if length parts < 3 then split sepEmDash line else parts);
          parts = (if length parts < 3 then split sepEnDash line else parts);
          parts = (if length parts < 3 then split sepColon line else parts);
          parts = (if length parts < 3 then split sepBar line else parts)
      in parts)"

text \<open>
  \<open>/(\d{1,2})\s*min/i\<close>. Without the \<open>u\<close> flag, case-insensitive matching compares
  upper-cased code units and never maps a non-ASCII unit to an ASCII one, so \<open>min\<close>
  matches exactly the ASCII letters in either case.
\<close>

fun startsMin :: "jsstring \<Rightarrow> bool" where
  "startsMin (a # b # c # rest) \<longleftrightarrow>
     (a = 109 \<or> a = 77) \<and> (b = 105 \<or> b = 73) \<and> (c = 110 \<or> c = 78)"
| "startsMin _ \<longleftrightarrow> False"

text \<open>\<open>\s*min\<close> at the head of \<open>s\<close>: the greedy \<open>\s*\<close> must take every white unit.\<close>

definition durTail :: "jsstring \<Rightarrow> bool" where
  "durTail s = startsMin (dropWhile isWhite s)"

text \<open>
  The match attempt at one position. \<open>\d{1,2}\<close> is greedy; when two digits are there
  and the rest fails, the retry with one digit meets the second digit where \<open>\s*min\<close>
  must start, and fails too.
\<close>

fun durMatchAt :: "jsstring \<Rightarrow> jsstring option" where
  "durMatchAt (d1 # d2 # rest) =
     (if isDigit d1 then
        (if isDigit d2 then (if durTail rest then Some [d1, d2] else None)
         else if durTail (d2 # rest) then Some [d1] else None)
      else None)"
| "durMatchAt _ = None"

text \<open>\<open>line.match(...)\<close>: the leftmost position that matches; the result is group 1.\<close>

fun durMatch :: "jsstring \<Rightarrow> jsstring option" where
  "durMatch [] = None"
| "durMatch (c # cs) =
     (case durMatchAt (c # cs) of Some ds \<Rightarrow> Some ds | None \<Rightarrow> durMatch cs)"

text \<open>Lines 204-206.\<close>

definition lineDuration :: "jsstring \<Rightarrow> int" where
  "lineDuration line =
     (case durMatch line of
        None \<Rightarrow> 8
      | Some ds \<Rightarrow> min 20 (max 5 (digitsVal ds)))"

text \<open>
  \<open>.replace(/[-:]\s*\d+\s*min\.?$/i, '')\<close>, where the class also holds U+2014 and
  U+2013: the pattern is anchored at the end of the string, so the leftmost match is
  removed together with everything after it.
\<close>

definition isDashOrColon :: "jschar \<Rightarrow> bool" where
  "isDashOrColon c \<longleftrightarrow> c = 45 \<or> c = 8212 \<or> c = 8211 \<or> c = 58"

definition minSuffixTail :: "jsstring \<Rightarrow> bool" where
  "minSuffixTail s =
     (let s1 = dropWhile isWhite s;
          s2 = dropWhile isDigit s1;
          s3 = dropWhile isWhite s2
      in takeWhile isDigit s1 \<noteq> [] \<and> startsMin s3 \<and> (drop 3 s3 = [] \<or> drop 3 s3 = [46]))"

fun stripMinSuffix :: "jsstring \<Rightarrow> jsstring" where
  "stripMinSuffix [] = []"
| "stripMinSuffix (c # cs) =
     (if isDashOrColon c \<and> minSuffixTail cs then [] else c # stripMinSuffix cs)"

text \<open>\<open>.replace(/^[\d\.\)\s]+/, '')\<close>: the leading numbering of a title.\<close>

definition isNumbering :: "jschar \<Rightarrow> bool" where
  "isNumbering c \<longleftrightarrow> isDigit c \<or> c = 46 \<or> c = 41 \<or> isWhite c"

definition stripNumbering :: "jsstring \<Rightarrow> jsstring" where
  "stripNumbering s = dropWhile isNumbering s"

text \<open>\<open>a || b\<close> on strings: the empty string is falsy.\<close>

definition orElse :: "jsstring \<Rightarrow> jsstring \<Rightarrow> jsstring" where
  "orElse a b = (if a = [] then b else a)"

text \<open>\<open>parts[i]\<close>, where an index past the end reads \<open>undefined\<close> (falsy).\<close>

definition part :: "jsstring list \<Rightarrow> nat \<Rightarrow> jsstring" where
  "part parts i = (if i < length parts then parts ! i else [])"

definition defaultContent :: "jsstring \<Rightarrow> jsstring" where
  "defaultContent childName =
     js ''Once upon a time, '' @ childName @ js '' discovered something magical...''"

text \<open>Lines 196-214: the candidate built from a line of at least three parts.\<close>

definition lineCandidate :: "jsstring \<Rightarrow> int \<Rightarrow> nat \<Rightarrow> jsstring \<Rightarrow> jsstring list \<Rightarrow> candidate" where
  "lineCandidate childName childAge parsedLen line parts =
     (let title0 = trim (stripNumbering (orElse (part parts 0) (js ''Story '' @ showNat (parsedLen + 1))));
          title1 = substring0 100 title0;
          description0 = orElse (part parts 1) (js ''A wonderful story for '' @ childName @ js ''.'');
          description1 = substring0 500 description0;
          storyText = trim (join sepHyphen (drop 2 parts))
      in \<lparr> title = trim (stripMinSuffix title1),
           description = trim (stripMinSuffix description1),
           content = orElse storyText (defaultContent childName),
           duration = lineDuration line,
           ageRange = deriveAgeRange childAge \<rparr>)"

text \<open>
  The loop of lines 186-215, over the lines not yet visited; \<open>parsed\<close> is the array
  built so far and \<open>count\<close> is a JavaScript number, here an integer.
\<close>

fun parseLoop :: "jsstring \<Rightarrow> int \<Rightarrow> int \<Rightarrow> jsstring list \<Rightarrow> candidate list \<Rightarrow> candidate list" where
  "parseLoop childName childAge count [] parsed = parsed"
| "parseLoop childName childAge count (line # lines) parsed =
     (if \<not> int (length parsed) < count then parsed
      else let parts = lineParts line in
        if length parts < 3 then parseLoop childName childAge count lines parsed
        else parseLoop childName childAge count lines
               (parsed @ [lineCandidate childName childAge (length parsed) line parts]))"

text \<open>\<open>xs.slice(0, n)\<close>: a negative \<open>n\<close> counts from the end.\<close>

definition slice0 :: "int \<Rightarrow> 'a list \<Rightarrow> 'a list" where
  "slice0 n xs = (if n < 0 then take (nat (int (length xs) + n)) xs else take (nat n) xs)"

definition textLines :: "jsstring \<Rightarrow> jsstring list" where
  "textLines text = filter (\<lambda>l. l \<noteq> []) (map trim (splitLines text))"

definition parseGeneratedText :: "jsstring \<Rightarrow> jsstring \<Rightarrow> int \<Rightarrow> int \<Rightarrow> candidate list" where
  "parseGeneratedText text childName childAge count =
     slice0 count (parseLoop childName childAge count (textLines text) [])"

section \<open>The JSON branch of \<open>generateCategoryStories\<close>\<close>

text \<open>
  The values \<open>JSON.parse\<close> returns. \<open>JSON.parse\<close> itself and the conversion of a
  number to a string belong to the JavaScript runtime, not to the repository: they are
  parameters of the model (\<open>runtime\<close>), and a number is a value of an
  arbitrary type \<open>'n\<close>. \<open>jsonParse\<close> returns \<open>None\<close> where \<open>JSON.parse\<close> throws.
  An object is the list of its own properties.
\<close>

datatype 'n jsval =
    JNull
  | JBool bool
  | JNum 'n
  | JStr jsstring
  | JArr "'n jsval list"
  | JObj "(jsstring \<times> 'n jsval) list"

record 'n runtime =
  jsonParse :: "jsstring \<Rightarrow> 'n jsval option"
  numToString :: "'n \<Rightarrow> jsstring"
  numTruthy :: "'n \<Rightarrow> bool"

text \<open>\<open>!!v\<close>.\<close>

fun truthy :: "'n runtime \<Rightarrow> 'n jsval \<Rightarrow> bool" where
  "truthy rt JNull = False"
| "truthy rt (JBool b) = b"
| "truthy rt (JNum n) = numTruthy rt n"
| "truthy rt (JStr s) = (s \<noteq> [])"
| "truthy rt (JArr xs) = True"
| "truthy rt (JObj kvs) = True"

text \<open>
  \<open>v.key\<close> and \<open>v?.key\<close> for the keys read in \<open>routes/ai.js\<close> (\<open>title\<close>,
  \<open>description\<close>, \<open>content\<close>, \<open>duration\<close>, \<open>choices\<close>, \<open>message\<close>, \<open>voices\<close>,
  \<open>voice_id\<close>, \<open>id\<close>, \<open>voiceId\<close>, \<open>uuid\<close>), none of which is a property of a
  string, a number, a boolean, an array or \<open>Object.prototype\<close>. \<open>None\<close> is
  \<open>undefined\<close>.
\<close>

fun getProp :: "'n jsval \<Rightarrow> jsstring \<Rightarrow> 'n jsval option" where
  "getProp (JObj kvs) key = map_of kvs key"
| "getProp v key = None"

definition truthyProp :: "'n runtime \<Rightarrow> 'n jsval \<Rightarrow> jsstring \<Rightarrow> bool" where
  "truthyProp rt v key = (case getProp v key of None \<Rightarrow> False | Some x \<Rightarrow> truthy rt x)"

text \<open>
  An exception is a value: a computation that can throw has a result of type
  \<open>js_exn + 'a\<close>, \<open>Inl\<close> when it throws. \<open>TypeError\<close> and \<open>SyntaxError\<close> are
  the two exceptions of the language that the parsing of the provider's answer can
  meet; \<open>Thrown\<close> is any exception of an awaited operation of the gateway (a
  rejected request, a failed file write), whose payload is only logged.
\<close>

datatype js_exn = Thrown | TypeError | SyntaxError

text \<open>\<open>try { body } catch (err) { handler }\<close>.\<close>

definition tryCatch :: "js_exn + 'a \<Rightarrow> (js_exn \<Rightarrow> js_exn + 'a) \<Rightarrow> js_exn + 'a" where
  "tryCatch body handler = (case body of Inl err \<Rightarrow> handler err | Inr v \<Rightarrow> Inr v)"

text \<open>One evaluation after another: the second does not run when the first throws.\<close>

definition andThen :: "js_exn + 'a \<Rightarrow> ('a \<Rightarrow> js_exn + 'b) \<Rightarrow> js_exn + 'b" where
  "andThen m f = (case m of Inl err \<Rightarrow> Inl err | Inr v \<Rightarrow> f v)"

text \<open>
  \<open>String(v)\<close>, \<open>v.toString()\<close> for a truthy \<open>v\<close>, and the conversion to a string
  that \<open>parseInt(v, 10)\<close> and a template literal make of \<open>v\<close>. They throw a
  \<open>TypeError\<close> on an object with an own property \<open>toString\<close>: a value that
  \<open>JSON.parse\<close> returns is never a function, so the property hides
  \<open>Object.prototype.toString\<close> with something that cannot be called
  (\<open>v.toString()\<close> fails at the call; \<open>String(v)\<close> passes on to \<open>valueOf\<close>, own
  and not callable or inherited and returning the object itself, and fails after
  it). An object without that own property is \<open>[object Object]\<close>, whatever its
  \<open>valueOf\<close>. An array joins the conversions of its elements, \<open>null\<close> as the
  empty string, and throws when one of them does.
\<close>

fun toStr :: "'n runtime \<Rightarrow> 'n jsval \<Rightarrow> js_exn + jsstring" where
  "toStr rt JNull = Inr (js ''null'')"
| "toStr rt (JBool b) = Inr (if b then js ''true'' else js ''false'')"
| "toStr rt (JNum n) = Inr (numToString rt n)"
| "toStr rt (JStr s) = Inr s"
| "toStr rt (JArr xs) =
     (let rs = map (\<lambda>v. if v = JNull then Inr [] else toStr rt v) xs in
      if list_ex isl rs then Inl TypeError else Inr (join (js '','') (map projr rs)))"
| "toStr rt (JObj kvs) =
     (if map_of kvs (js ''toString'') \<noteq> None then Inl TypeError
      else Inr (js ''[object Object]''))"

text \<open>
  \<open>parseInt(s, 10)\<close>: leading white space, a sign, then the longest run of digits;
  \<open>None\<close> is \<open>NaN\<close>. The result is only used under \<open>Math.min(20, Math.max(5, _))\<close>,
  where the rounding of a long run of digits to a double changes nothing.
\<close>

definition parseInt10 :: "jsstring \<Rightarrow> int option" where
  "parseInt10 s =
     (let s1 = dropWhile isWhite s;
          signed = (s1 \<noteq> [] \<and> (hd s1 = 45 \<or> hd s1 = 43));
          ds = takeWhile isDigit (if signed then tl s1 else s1)
      in if ds = [] then None
         else Some (if signed \<and> hd s1 = 45 then - digitsVal ds else digitsVal ds))"

text \<open>Line 277: \<open>Math.min(20, Math.max(5, parseInt(obj.duration || 8, 10) || 8))\<close>.\<close>

definition jsonDuration :: "'n runtime \<Rightarrow> 'n jsval \<Rightarrow> js_exn + int" where
  "jsonDuration rt obj =
     andThen (case getProp obj (js ''duration'') of
                None \<Rightarrow> Inr (Some 8)
              | Some v \<Rightarrow> if truthy rt v then andThen (toStr rt v) (\<lambda>s. Inr (parseInt10 s))
                          else Inr (Some 8))
       (\<lambda>parsed. let n = (case parsed of None \<Rightarrow> 8 | Some k \<Rightarrow> if k = 0 then 8 else k)
                  in Inr (min 20 (max 5 n)))"

text \<open>
  Lines 273-279: the candidate built from an accepted object, its properties
  evaluated in the order of the object literal; the first conversion that throws
  ends the evaluation.
\<close>

definition jsonCandidate :: "'n runtime \<Rightarrow> int \<Rightarrow> 'n jsval \<Rightarrow> js_exn + candidate" where
  "jsonCandidate rt childAge obj =
     andThen (case getProp obj (js ''title'') of
                None \<Rightarrow> Inr (js ''undefined'') | Some v \<Rightarrow> toStr rt v) (\<lambda>t.
     andThen (case getProp obj (js ''description'') of
                None \<Rightarrow> Inr []
              | Some v \<Rightarrow> if truthy rt v then toStr rt v else Inr []) (\<lambda>d.
     andThen (case getProp obj (js ''content'') of
                None \<Rightarrow> Inr (js ''undefined'') | Some v \<Rightarrow> toStr rt v) (\<lambda>c.
     andThen (jsonDuration rt obj) (\<lambda>n.
       Inr \<lparr> title = substring0 100 (trim t),
             description = substring0 500 (trim d),
             content = trim c,
             duration = n,
             ageRange = deriveAgeRange childAge \<rparr>))))"

text \<open>
  Lines 271-282: the loop over the parsed array. An element that is falsy, or whose
  \<open>title\<close> or \<open>content\<close> is falsy, is passed over; the loop stops once \<open>need\<close>
  candidates are there. The result is the array \<open>aggregatedParsed\<close> as the loop
  leaves it and how the loop ended: when the building of a candidate throws, the
  candidates pushed before it stay in the array.
\<close>

fun jsonLoop :: "'n runtime \<Rightarrow> int \<Rightarrow> int \<Rightarrow> 'n jsval list \<Rightarrow> candidate list
                 \<Rightarrow> candidate list \<times> (js_exn + unit)" where
  "jsonLoop rt childAge need [] acc = (acc, Inr ())"
| "jsonLoop rt childAge need (obj # arr) acc =
     (if \<not> truthy rt obj \<or> \<not> truthyProp rt obj (js ''title'') \<or> \<not> truthyProp rt obj (js ''content'')
      then jsonLoop rt childAge need arr acc
      else case jsonCandidate rt childAge obj of
             Inl err \<Rightarrow> (acc, Inl err)
           | Inr candidate \<Rightarrow>
               let acc' = acc @ [candidate] in
               if int (length acc') \<ge> need then (acc', Inr ())
               else jsonLoop rt childAge need arr acc')"

definition indexOf :: "jschar \<Rightarrow> jsstring \<Rightarrow> nat option" where
  "indexOf c s = (if c \<in> set s then Some (length (takeWhile (\<lambda>x. x \<noteq> c) s)) else None)"

definition lastIndexOf :: "jschar \<Rightarrow> jsstring \<Rightarrow> nat option" where
  "lastIndexOf c s =
     (if c \<in> set s then Some (length s - 1 - length (takeWhile (\<lambda>x. x \<noteq> c) (rev s))) else None)"

text \<open>
  Lines 264-268: the span from the first \<open>[\<close> to the last \<open>]\<close> of the trimmed text,
  when both are there in that order.
\<close>

definition bracketSpan :: "jsstring \<Rightarrow> jsstring option" where
  "bracketSpan aiText =
     (let maybeJson = trim aiText in
      case (indexOf 91 maybeJson, lastIndexOf 93 maybeJson) of
        (Some firstBracket, Some lastBracket) \<Rightarrow>
          if lastBracket > firstBracket
          then Some (take (lastBracket + 1 - firstBracket) (drop firstBracket maybeJson))
          else None
      | _ \<Rightarrow> None)"

text \<open>
  Lines 263-284: the body of the \<open>try\<close>, with the array \<open>aggregatedParsed\<close> as it
  is when the body ends and how it ends. \<open>JSON.parse\<close> throws a \<open>SyntaxError\<close>,
  before anything is pushed; the conversions of line 274-277 throw a \<open>TypeError\<close>,
  after the candidates of the elements before.
\<close>

definition jsonTry :: "'n runtime \<Rightarrow> jsstring \<Rightarrow> int \<Rightarrow> int \<Rightarrow> candidate list \<times> (js_exn + unit)" where
  "jsonTry rt aiText childAge need =
     (case bracketSpan aiText of
        None \<Rightarrow> ([], Inr ())
      | Some jsonStr \<Rightarrow>
          (case jsonParse rt jsonStr of
             None \<Rightarrow> ([], Inl SyntaxError)
           | Some (JArr arr) \<Rightarrow> jsonLoop rt childAge need arr []
           | Some _ \<Rightarrow> ([], Inr ())))"

text \<open>
  Lines 263-287: the \<open>try\<close> with its \<open>catch\<close>, whose block is empty. The array
  after it, and how the statement ends.
\<close>

definition jsonBranch :: "'n runtime \<Rightarrow> jsstring \<Rightarrow> int \<Rightarrow> int \<Rightarrow> candidate list" where
  "jsonBranch rt aiText childAge need = fst (jsonTry rt aiText childAge need)"

definition jsonBranchEnds :: "'n runtime \<Rightarrow> jsstring \<Rightarrow> int \<Rightarrow> int \<Rightarrow> js_exn + unit" where
  "jsonBranchEnds rt aiText childAge need =
     tryCatch (snd (jsonTry rt aiText childAge need)) (\<lambda>e. Inr ())"

text \<open>
  Lines 259-293: both tiers. An empty \<open>aiText\<close> is falsy and skips both; the line
  parser runs only when the JSON branch left the array empty.
\<close>

definition parseAiText :: "'n runtime \<Rightarrow> jsstring \<Rightarrow> jsstring \<Rightarrow> int \<Rightarrow> int \<Rightarrow> candidate list" where
  "parseAiText rt aiText childName childAge need =
     (if aiText = [] then []
      else let aggregatedParsed = jsonBranch rt aiText childAge need in
        if aggregatedParsed = []
        then slice0 need (parseGeneratedText aiText childName childAge need)
        else aggregatedParsed)"

text \<open>
  The same lines with their exceptions: \<open>Inl\<close> is an exception that leaves them,
  \<open>Inr\<close> the array after line 293. The line parser works on strings only
  (\<open>split\<close>, \<open>trim\<close>, \<open>replace\<close>, \<open>match\<close>, \<open>parseInt\<close> of matched digits), so the
  \<open>try\<close> statement is the one place an exception could come from.
\<close>

definition parseAiTextOutcome :: "'n runtime \<Rightarrow> jsstring \<Rightarrow> jsstring \<Rightarrow> int \<Rightarrow> int
                                  \<Rightarrow> js_exn + candidate list" where
  "parseAiTextOutcome rt aiText childName childAge need =
     (if aiText = [] then Inr []
      else andThen (jsonBranchEnds rt aiText childAge need) (\<lambda>u.
        let aggregatedParsed = jsonBranch rt aiText childAge need in
        Inr (if aggregatedParsed = []
             then slice0 need (parseGeneratedText aiText childName childAge need)
             else aggregatedParsed)))"


section \<open>The story store\<close>

text \<open>
  A story document, with the paths of the \<open>Story\<close> schema (\<open>models/Story.js\<close>) that
  \<open>routes/ai.js\<close> and the completion handlers read or write. The store is the list
  of documents in insertion order; \<open>sid\<close> is the \<open>_id\<close> the store assigns.
\<close>

record story =
  sid :: nat
  s_title :: jsstring
  s_description :: jsstring
  s_content :: jsstring
  s_duration :: int
  s_ageRange :: ageRange
  s_theme :: jsstring
  s_category :: jsstring
  s_thumbnail :: jsstring
  isAIGenerated :: bool
  isActive :: bool
  generatedForCollection :: "jsstring option"
  audioUrl :: "jsstring option"
  audioPending :: bool
  totalPlays :: int
  totalCompletions :: int

type_synonym store = "story list"

text \<open>
  \<open>Story.countDocuments({generatedForCollection: key, isActive: true, isAIGenerated: true})\<close>.
\<close>

definition activeAI :: "jsstring \<Rightarrow> story \<Rightarrow> bool" where
  "activeAI key s \<longleftrightarrow> generatedForCollection s = Some key \<and> isActive s \<and> isAIGenerated s"

definition countDocuments :: "store \<Rightarrow> jsstring \<Rightarrow> int" where
  "countDocuments db key = int (length (filter (activeAI key) db))"

text \<open>\<open>Story.findOne({title, generatedForCollection: key, isActive: true})\<close>, lines 335-339.\<close>

definition findDuplicate :: "store \<Rightarrow> jsstring \<Rightarrow> jsstring \<Rightarrow> story option" where
  "findDuplicate db ttl key =
     find (\<lambda>s. s_title s = ttl \<and> generatedForCollection s = Some key \<and> isActive s) db"

text \<open>
  \<open>Story.findOne({$or: [{title}, {content}], audioUrl: {$exists: true, $ne: null}})\<close>,
  lines 347-350.
\<close>

definition findWithAudio :: "store \<Rightarrow> jsstring \<Rightarrow> jsstring \<Rightarrow> story option" where
  "findWithAudio db ttl body =
     find (\<lambda>s. (s_title s = ttl \<or> s_content s = body) \<and> audioUrl s \<noteq> None) db"

text \<open>
  \<open>Story.create(storyData)\<close>: the document is added with a fresh \<open>_id\<close>. A
  document that the validators of the schema refuse is a rejected \<open>create\<close> (see
  \<open>storeRejects\<close> below). The schema trims the title; the titles of candidates are
  trimmed already, but for a title of the JSON branch that line 274 cuts right after
  white space, a case that is not represented.
\<close>

definition freshId :: "store \<Rightarrow> nat" where
  "freshId db = Suc (foldr max (map sid db) 0)"

definition createStory :: "store \<Rightarrow> story \<Rightarrow> story" where
  "createStory db storyData = storyData \<lparr> sid := freshId db \<rparr>"

section \<open>The collection registry\<close>

record category =
  label :: jsstring
  icon :: jsstring
  prompt :: jsstring
  theme :: jsstring
  ccategory :: jsstring

text \<open>
  \<open>STORY_CATEGORIES\<close>, lines 151-180. The icons are written as their UTF-16 code
  units. A key that is not one of the four is not a category (the properties a
  JavaScript object inherits, such as \<open>constructor\<close>, are not modelled).
\<close>

definition STORY_CATEGORIES :: "(jsstring \<times> category) list" where
  "STORY_CATEGORIES =
     [(js ''mom-stories'',
         \<lparr> label = js ''Stories from Mom'', icon = [55357, 56425],
           prompt = js ''Generate warm, nurturing stories told from a mother's perspective. Focus on bedtime comfort, gentle life lessons, and family love.'',
           theme = js ''family'', ccategory = js ''audio'' \<rparr>),
      (js ''grandma-stories'',
         \<lparr> label = js ''Stories from Grandma'', icon = [55357, 56437],
           prompt = js ''Generate wise, nostalgic stories told from a grandmother's perspective. Include timeless wisdom, traditions, and gentle humor.'',
           theme = js ''family'', ccategory = js ''audio'' \<rparr>),
      (js ''now-stories'',
         \<lparr> label = js ''Perfect Right Now'', icon = [11088],
           prompt = js ''Generate engaging, age-appropriate stories perfect for the current moment. Include adventure, excitement, and positive energy.'',
           theme = js ''adventure'', ccategory = js ''interactive'' \<rparr>),
      (js ''learn-stories'',
         \<lparr> label = js ''Learning Adventures'', icon = [55356, 57235],
           prompt = js ''Generate educational stories that teach concepts through adventure. Focus on science, nature, problem-solving, and curiosity.'',
           theme = js ''learning'', ccategory = js ''educational'' \<rparr>)]"

text \<open>
  Line 227, \<open>STORY_CATEGORIES[categoryKey]\<close>, for the keys of the registry and for
  names that no object has. The names that the object inherits from
  \<open>Object.prototype\<close> (\<open>constructor\<close>, \<open>toString\<close>, ...), for which the value is
  truthy without being a category, are not represented.
\<close>

definition lookupCategory :: "jsstring \<Rightarrow> category option" where
  "lookupCategory categoryKey = map_of STORY_CATEGORIES categoryKey"

section \<open>The replenishment engine: \<open>generateCategoryStories\<close>\<close>

text \<open>
  What the outside does during one call: the configuration read from \<open>process.env\<close>,
  the value \<open>generateWithOpenAI\<close> resolves to (the messages of lines 243-254 are
  determined by the category, \<open>need\<close>, the child's name and age, and are not
  represented), what \<open>textToElevenlabsAudio\<close> does for the candidate at each index,
  and which operations of the store reject.
\<close>

datatype tts_outcome = TtsUrl jsstring | TtsNull | TtsThrows

datatype store_op = CountExisting | CountLatest | FindDuplicate nat | FindAudio nat | Create nat

record 'n world =
  runtime :: "'n runtime"
  openaiKey :: bool
  elevenKey :: bool
  hasReq :: bool
  openaiAnswer :: jsstring
  ttsAnswer :: "nat \<Rightarrow> tts_outcome"
  storeRejects :: "store_op \<Rightarrow> bool"

record call =
  argCategoryKey :: jsstring
  argChildName :: jsstring
  argChildAge :: int
  argTargetTotal :: int

datatype gcs_error = InvalidCategoryKey | StoreError

text \<open>
  \<open>generateCategoryStories\<close> is an \<open>async\<close> function: it runs to its next
  \<open>await\<close>, hands control back, and goes on when the awaited operation has settled;
  other requests run in between. A \<open>task\<close> is the call suspended at one of its
  \<open>await\<close>s, with the local variables that are live there, or the settled call.
\<close>

datatype task =
    AwaitCountExisting
  | AwaitOpenAI int
  | AwaitCountLatest "candidate list"
  | AwaitFindDuplicate nat "candidate list" "story list"
  | AwaitFindAudio nat "candidate list" "story list"
  | AwaitTts nat "candidate list" "story list"
  | AwaitCreate nat story "candidate list" "story list"
  | Done "gcs_error + story list"

text \<open>The operation a step performs: the trace of a call.\<close>

datatype event = StoreCount | StoreFindOne | StoreCreate | TextGeneration | SpeechSynthesis | Settled

text \<open>Lines 318-331: \<open>storyData\<close> before the audio fields are set.\<close>

definition storyData :: "call \<Rightarrow> category \<Rightarrow> candidate \<Rightarrow> story" where
  "storyData c cat s =
     \<lparr> sid = 0,
       s_title = title s,
       s_description = description s,
       s_content = content s,
       s_duration = duration s,
       s_ageRange = ageRange s,
       s_theme = theme cat,
       s_category = ccategory cat,
       s_thumbnail = icon cat,
       isAIGenerated = True,
       isActive = True,
       generatedForCollection = Some (argCategoryKey c),
       audioUrl = None,
       audioPending = False,
       totalPlays = 0,
       totalCompletions = 0 \<rparr>"

text \<open>
  The head of the \<open>for\<close> loop of line 314: \<open>todo\<close> is \<open>toSave\<close> from index \<open>i\<close> on.
\<close>

definition loopHead :: "nat \<Rightarrow> candidate list \<Rightarrow> story list \<Rightarrow> task" where
  "loopHead i todo saved = (if todo = [] then Done (Inr saved) else AwaitFindDuplicate i todo saved)"

text \<open>
  One step of a call: the awaited operation settles, and the call runs to its next
  \<open>await\<close> or to its end. A rejection inside the \<open>try\<close> of lines 333-384 is caught
  at line 382 and the loop goes on; a rejection of a count is not caught. Lines
  259-293, between the text generation and the second count, end without an
  exception (\<open>parseAiTextOutcome\<close>), with the array \<open>parseAiText\<close>.
\<close>

fun step :: "'n world \<Rightarrow> call \<Rightarrow> category \<Rightarrow> store \<Rightarrow> task \<Rightarrow> store \<times> task \<times> event" where
  "step w c cat db AwaitCountExisting =
     (if storeRejects w CountExisting then (db, Done (Inl StoreError), StoreCount)
      else let existingCount = countDocuments db (argCategoryKey c);
               need = max 0 (argTargetTotal c - existingCount)
           in if need \<le> 0 then (db, Done (Inr []), StoreCount)
              else if openaiKey w then (db, AwaitOpenAI need, StoreCount)
              else (db, Done (Inr []), StoreCount))"
| "step w c cat db (AwaitOpenAI need) =
     (let aiText = openaiAnswer w;
          aggregatedParsed = parseAiText (runtime w) aiText (argChildName c) (argChildAge c) need
      in if aggregatedParsed = [] then (db, Done (Inr []), TextGeneration)
         else (db, AwaitCountLatest aggregatedParsed, TextGeneration))"
| "step w c cat db (AwaitCountLatest aggregatedParsed) =
     (if storeRejects w CountLatest then (db, Done (Inl StoreError), StoreCount)
      else let latestCount = countDocuments db (argCategoryKey c);
               remainingNeed = max 0 (argTargetTotal c - latestCount)
           in if remainingNeed \<le> 0 then (db, Done (Inr []), StoreCount)
              else (db, loopHead 0 (slice0 remainingNeed aggregatedParsed) [], StoreCount))"
| "step w c cat db (AwaitFindDuplicate i [] saved) = (db, Done (Inr saved), Settled)"
| "step w c cat db (AwaitFindDuplicate i (s # todo) saved) =
     (if storeRejects w (FindDuplicate i) then (db, loopHead (i + 1) todo saved, StoreFindOne)
      else case findDuplicate db (title s) (argCategoryKey c) of
             Some duplicate \<Rightarrow> (db, loopHead (i + 1) todo saved, StoreFindOne)
           | None \<Rightarrow> (db, AwaitFindAudio i (s # todo) saved, StoreFindOne))"
| "step w c cat db (AwaitFindAudio i [] saved) = (db, Done (Inr saved), Settled)"
| "step w c cat db (AwaitFindAudio i (s # todo) saved) =
     (if storeRejects w (FindAudio i) then (db, loopHead (i + 1) todo saved, StoreFindOne)
      else let existingWithAudio = findWithAudio db (title s) (content s);
               reusable = (case existingWithAudio of
                             None \<Rightarrow> None
                           | Some e \<Rightarrow> (case audioUrl e of
                                          None \<Rightarrow> None
                                        | Some u \<Rightarrow> if u = [] then None else Some u))
           in case reusable of
                Some u \<Rightarrow>
                  (db, AwaitCreate i ((storyData c cat s) \<lparr> audioUrl := Some u, audioPending := False \<rparr>)
                         todo saved, StoreFindOne)
              | None \<Rightarrow>
                  if elevenKey w \<and> hasReq w then (db, AwaitTts i (s # todo) saved, StoreFindOne)
                  else (db, AwaitCreate i ((storyData c cat s) \<lparr> audioPending := elevenKey w \<rparr>)
                              todo saved, StoreFindOne))"
| "step w c cat db (AwaitTts i [] saved) = (db, Done (Inr saved), Settled)"
| "step w c cat db (AwaitTts i (s # todo) saved) =
     (case ttsAnswer w i of
        TtsUrl u \<Rightarrow>
          if u \<noteq> []
          then (db, AwaitCreate i ((storyData c cat s) \<lparr> audioUrl := Some u, audioPending := False \<rparr>)
                      todo saved, SpeechSynthesis)
          else (db, AwaitCreate i ((storyData c cat s) \<lparr> audioPending := True \<rparr>) todo saved,
                SpeechSynthesis)
      | TtsNull \<Rightarrow>
          (db, AwaitCreate i ((storyData c cat s) \<lparr> audioPending := True \<rparr>) todo saved,
           SpeechSynthesis)
      | TtsThrows \<Rightarrow>
          (db, AwaitCreate i ((storyData c cat s) \<lparr> audioPending := True \<rparr>) todo saved,
           SpeechSynthesis))"
| "step w c cat db (AwaitCreate i sd todo saved) =
     (if storeRejects w (Create i) then (db, loopHead (i + 1) todo saved, StoreCreate)
      else let doc = createStory db sd
           in (db @ [doc], loopHead (i + 1) todo (saved @ [doc]), StoreCreate))"
| "step w c cat db (Done r) = (db, Done r, Settled)"

text \<open>
  The outcome of a call that ran alone: what the promise settles to, the store it
  leaves, and the operations it performed, in order.
\<close>

record outcome =
  result :: "gcs_error + story list"
  finalStore :: store
  trace :: "event list"

text \<open>The phase of a task and what is left of its loop: the steps of a call are finite.\<close>

fun phase :: "task \<Rightarrow> nat" where
  "phase AwaitCountExisting = 3"
| "phase (AwaitOpenAI need) = 2"
| "phase (AwaitCountLatest aggregatedParsed) = 1"
| "phase t = 0"

fun remaining :: "task \<Rightarrow> nat" where
  "remaining (AwaitFindDuplicate i todo saved) = 4 * length todo + 4"
| "remaining (AwaitFindAudio i todo saved) = 4 * length todo + 3"
| "remaining (AwaitTts i todo saved) = 4 * length todo + 2"
| "remaining (AwaitCreate i sd todo saved) = 4 * length todo + 5"
| "remaining t = 0"

definition isDone :: "task \<Rightarrow> bool" where
  "isDone t = (case t of Done r \<Rightarrow> True | _ \<Rightarrow> False)"

lemma step_decreases:
  "\<not> isDone t \<Longrightarrow> step w c cat db t = (db', t', e) \<Longrightarrow>
     phase t' < phase t \<or> (phase t' = phase t \<and> remaining t' < remaining t)"
  by (cases "(w, c, cat, db, t)" rule: step.cases)
     (auto simp: isDone_def loopHead_def Let_def split: if_splits option.splits tts_outcome.splits)

text \<open>A call that runs alone: its steps, one after the other, on the store they leave.\<close>

function run :: "'n world \<Rightarrow> call \<Rightarrow> category \<Rightarrow> store \<Rightarrow> task \<Rightarrow> outcome" where
  "run w c cat db t =
     (if isDone t
      then \<lparr> result = (case t of Done r \<Rightarrow> r | _ \<Rightarrow> Inr []), finalStore = db, trace = [] \<rparr>
      else case step w c cat db t of
             (db', t', e) \<Rightarrow>
               (let out = run w c cat db' t' in out \<lparr> trace := e # trace out \<rparr>))"
  by pat_completeness auto
termination
  apply (relation "measures [\<lambda>(w, c, cat, db, t). phase t, \<lambda>(w, c, cat, db, t). remaining t]")
   apply simp
  apply (auto dest: step_decreases [OF _ sym])
  done

declare run.simps [simp del]

text \<open>
  Lines 226-228 run before the first \<open>await\<close>: an unknown key rejects the call at
  once.
\<close>

definition generateCategoryStories :: "'n world \<Rightarrow> call \<Rightarrow> store \<Rightarrow> outcome" where
  "generateCategoryStories w c db =
     (case lookupCategory (argCategoryKey c) of
        None \<Rightarrow> \<lparr> result = Inl InvalidCategoryKey, finalStore = db, trace = [] \<rparr>
      | Some cat \<Rightarrow> run w c cat db AwaitCountExisting)"

text \<open>
  Two calls in flight on the same store. The schedule says which call takes the next
  step (\<open>True\<close>: the first); a call that has settled stays as it is.
\<close>

fun interleave ::
  "'n world \<times> call \<times> category \<Rightarrow> 'n world \<times> call \<times> category \<Rightarrow> bool list \<Rightarrow>
     store \<times> task \<times> task \<Rightarrow> store \<times> task \<times> task" where
  "interleave A B [] s = s"
| "interleave (wa, ca, cata) (wb, cb, catb) (first # schedule) (db, ta, tb) =
     (if first
      then case step wa ca cata db ta of
             (db', ta', e) \<Rightarrow> interleave (wa, ca, cata) (wb, cb, catb) schedule (db', ta', tb)
      else case step wb cb catb db tb of
             (db', tb', e) \<Rightarrow> interleave (wa, ca, cata) (wb, cb, catb) schedule (db', ta, tb'))"

section \<open>The provider gateway\<close>

text \<open>
  The two gateway functions of \<open>routes/ai.js\<close> await HTTP calls and file writes that
  can throw. An awaited operation is a value of \<open>js_exn + 'a\<close>: \<open>Inl\<close> when it
  throws (\<open>Thrown\<close>), and so is the result of a gateway function, so that "never
  raises" is a statement about the model and not a property of its types. The
  payload of an exception is only logged (\<open>logAxiosError\<close>, lines 46-67, which
  catches its own failures) and is not represented.
\<close>











section \<open>The consumption hook: the two completion handlers\<close>

text \<open>
  A Mongoose document in memory: the paths the schema declares, and the property
  \<open>stats.completions\<close> that the handlers (and line 330 of \<open>routes/ai.js\<close>) set on it.
  The \<open>Story\<close> schema declares \<open>stats.totalPlays\<close>, \<open>stats.totalCompletions\<close>,
  \<open>stats.averageRating\<close>, \<open>stats.totalRatings\<close> and \<open>stats.lastPlayed\<close>, and no
  \<open>stats.completions\<close>; it does not switch strict mode off. \<open>save()\<close> writes the
  declared paths; a property the schema does not declare lives on the in-memory
  object only (\<open>None\<close> is \<open>undefined\<close>, its value on a document just loaded).
\<close>

record document =
  declared :: story
  adhocCompletions :: "int option"

definition load :: "story \<Rightarrow> document" where
  "load s = \<lparr> declared = s, adhocCompletions = None \<rparr>"

definition save :: "store \<Rightarrow> document \<Rightarrow> store" where
  "save db doc = map (\<lambda>s. if sid s = sid (declared doc) then declared doc else s) db"

text \<open>\<open>Story.findById(id)\<close> and \<open>Story.findOne({_id: id, isActive: true})\<close>.\<close>

definition findById :: "store \<Rightarrow> nat \<Rightarrow> story option" where
  "findById db i = find (\<lambda>s. sid s = i) db"

definition findActiveById :: "store \<Rightarrow> nat \<Rightarrow> story option" where
  "findActiveById db i = find (\<lambda>s. sid s = i \<and> isActive s) db"

text \<open>\<open>Story.deleteOne({_id: id})\<close>: the first document with that id is removed.\<close>

fun deleteOne :: "store \<Rightarrow> nat \<Rightarrow> store" where
  "deleteOne [] i = []"
| "deleteOne (s # db) i = (if sid s = i then db else s # deleteOne db i)"

text \<open>\<open>story.stats.completions = (story.stats.completions || 0) + 1\<close>.\<close>

definition bumpCompletions :: "document \<Rightarrow> document" where
  "bumpCompletions doc =
     doc \<lparr> adhocCompletions :=
             Some ((case adhocCompletions doc of
                      None \<Rightarrow> 0
                    | Some n \<Rightarrow> if n = 0 then 0 else n) + 1) \<rparr>"

text \<open>
  Line 169 of \<open>routes/stories.js\<close>:
  \<open>(story.ageRange && Number.isInteger(story.ageRange.min)) ? Math.max(3, story.ageRange.min) : 5\<close>.
  \<open>None\<close> stands for a missing range or a minimum that is not an integer; the ages of
  this model are integers, so a stored record always gives \<open>Some\<close>.
\<close>

definition regenerationAge :: "int option \<Rightarrow> int" where
  "regenerationAge ageMin = (case ageMin of Some m \<Rightarrow> max 3 m | None \<Rightarrow> 5)"

text \<open>
  What a handler leaves: the store, the response, and the call of
  \<open>generateCategoryStories\<close> it started without awaiting it (the promise only gets a
  \<open>catch\<close> that logs). The requests are taken to have passed the checks of their
  identifiers, and the operations of the store to succeed.
\<close>

datatype response = Completed | NotFound

record handled =
  h_store :: store
  h_response :: response
  h_scheduled :: "call option"

text \<open>\<open>story.isAIGenerated && story.generatedForCollection\<close>: the key if both are truthy.\<close>

definition aiCollection :: "story \<Rightarrow> jsstring option" where
  "aiCollection s =
     (if isAIGenerated s
      then (case generatedForCollection s of
              None \<Rightarrow> None
            | Some key \<Rightarrow> if key = [] then None else Some key)
      else None)"

text \<open>\<open>POST /:id/complete\<close> of \<open>routes/stories.js\<close>, lines 146-182.\<close>

definition storiesComplete :: "store \<Rightarrow> nat \<Rightarrow> handled" where
  "storiesComplete db i =
     (case findById db i of
        None \<Rightarrow> \<lparr> h_store = db, h_response = NotFound, h_scheduled = None \<rparr>
      | Some found \<Rightarrow>
          if \<not> isActive found
          then \<lparr> h_store = db, h_response = NotFound, h_scheduled = None \<rparr>
          else
            let story = bumpCompletions (load found);
                db1 = save db story
            in case aiCollection (declared story) of
                 Some key \<Rightarrow>
                   let story' = story \<lparr> declared := (declared story) \<lparr> isActive := False \<rparr> \<rparr>;
                       db2 = save db1 story';
                       childAge = regenerationAge (Some (ar_min (s_ageRange (declared story'))))
                   in \<lparr> h_store = db2, h_response = Completed,
                        h_scheduled = Some \<lparr> argCategoryKey = key, argChildName = js ''friend'',
                                              argChildAge = childAge, argTargetTotal = 1 \<rparr> \<rparr>
               | None \<Rightarrow> \<lparr> h_store = db1, h_response = Completed, h_scheduled = None \<rparr>)"

text \<open>
  \<open>POST /:childId/complete/:contentId\<close> of \<open>routes/child.js\<close>, from the lookup of the
  content on (lines 769-818); the child was found, with its \<open>name\<close> and \<open>age\<close>.
  \<open>activityFound\<close> says whether an active activity has the identifier. The child's
  own statistics are not part of the story store.
\<close>

definition childComplete :: "store \<Rightarrow> jsstring \<Rightarrow> int \<Rightarrow> bool \<Rightarrow> nat \<Rightarrow> handled" where
  "childComplete db name age activityFound i =
     (case findActiveById db i of
        None \<Rightarrow>
          \<lparr> h_store = db, h_response = (if activityFound then Completed else NotFound),
            h_scheduled = None \<rparr>
      | Some found \<Rightarrow>
          let story = bumpCompletions (load found)
          in case aiCollection (declared story) of
               Some key \<Rightarrow>
                 \<lparr> h_store = deleteOne db (sid (declared story)), h_response = Completed,
                   h_scheduled = Some \<lparr> argCategoryKey = key,
                                         argChildName = orElse name (js ''friend''),
                                         argChildAge = (if age = 0 then 5 else age),
                                         argTargetTotal = 1 \<rparr> \<rparr>
             | None \<Rightarrow> \<lparr> h_store = save db story, h_response = Completed, h_scheduled = None \<rparr>)"

section \<open>Sample inputs\<close>

text \<open>
  A runtime whose numbers are natural numbers, for the concrete runs below; its
  \<open>JSON.parse\<close> is given per example as the parse of the one text that example reads.
\<close>

definition natRuntime :: "(jsstring \<Rightarrow> nat jsval option) \<Rightarrow> nat runtime" where
  "natRuntime parse = \<lparr> jsonParse = parse, numToString = showNat, numTruthy = (\<lambda>n. n \<noteq> 0) \<rparr>"

definition foxJson :: jsstring where
  "foxJson = js ''[{\"title\":\"Brave Fox\",\"description\":\"A tale\",\"content\":\"Once there was a fox.\",\"duration\":12}]''"

definition foxParse :: "jsstring \<Rightarrow> nat jsval option" where
  "foxParse s =
     (if s = foxJson
      then Some (JArr [JObj [(js ''title'', JStr (js ''Brave Fox'')),
                             (js ''description'', JStr (js ''A tale'')),
                             (js ''content'', JStr (js ''Once there was a fox.'')),
                             (js ''duration'', JNum 12)]])
      else None)"

definition foxLine :: jsstring where
  "foxLine = js ''Brave Fox - A tale of courage - Once there was... - 12 min''"

definition owlLine :: jsstring where
  "owlLine = js ''Kind Owl - A tale of patience - Once upon a branch''"

text \<open>A text with brackets that is not JSON: \<open>JSON.parse\<close> throws on the span \<open>[draft]\<close>.\<close>

definition draftLine :: jsstring where
  "draftLine = js ''[draft] Kind Owl - A tale of patience - Once upon a branch''"

definition draftParse :: "jsstring \<Rightarrow> nat jsval option" where
  "draftParse s = None"

text \<open>
  A well-formed JSON answer whose \<open>content\<close> is a single space: the string is truthy,
  so the object passes the test of line 272.
\<close>

definition blankJson :: jsstring where
  "blankJson = js ''[{\"title\":\"Quiet Night\",\"description\":\"A calm tale\",\"content\":\" \",\"duration\":8}]''"

definition blankParse :: "jsstring \<Rightarrow> nat jsval option" where
  "blankParse s =
     (if s = blankJson
      then Some (JArr [JObj [(js ''title'', JStr (js ''Quiet Night'')),
                             (js ''description'', JStr (js ''A calm tale'')),
                             (js ''content'', JStr (js '' '')),
                             (js ''duration'', JNum 8)]])
      else None)"

text \<open>
  Well-formed JSON answers with a \<open>title\<close> that is an object with a property
  \<open>toString\<close>: the object is truthy, so the element passes the test of line 272,
  and \<open>String(obj.title)\<close> throws at line 274. In the second answer an element
  that converts comes first.
\<close>

definition maskedJson :: jsstring where
  "maskedJson = js ''[{\"title\":{\"toString\":1},\"content\":\"x\"}]''"

definition maskedParse :: "jsstring \<Rightarrow> nat jsval option" where
  "maskedParse s =
     (if s = maskedJson
      then Some (JArr [JObj [(js ''title'', JObj [(js ''toString'', JNum 1)]),
                             (js ''content'', JStr (js ''x''))]])
      else None)"

definition halfJson :: jsstring where
  "halfJson = js ''[{\"title\":\"Brave Fox\",\"content\":\"Once there was a fox.\"},{\"title\":{\"toString\":1},\"content\":\"x\"}]''"

definition halfParse :: "jsstring \<Rightarrow> nat jsval option" where
  "halfParse s =
     (if s = halfJson
      then Some (JArr [JObj [(js ''title'', JStr (js ''Brave Fox'')),
                             (js ''content'', JStr (js ''Once there was a fox.''))],
                       JObj [(js ''title'', JObj [(js ''toString'', JNum 1)]),
                             (js ''content'', JStr (js ''x''))]])
      else None)"

section \<open>The specification's reading of the line mode\<close>

text \<open>
  The separators in the order of preference the specification gives, and "the first
  separator that yields at least 3 segments".
\<close>

definition separators :: "jsstring list" where
  "separators = [sepHyphen, sepEmDash, sepEnDash, sepColon, sepBar]"

definition specFirstSeparator :: "jsstring \<Rightarrow> jsstring option" where
  "specFirstSeparator line = find (\<lambda>sep. 3 \<le> length (split sep line)) separators"

text \<open>
  "A pattern of 1-2 digits followed by min, case-insensitive, anywhere in the line":
  the digits \<open>ds\<close> occur in \<open>line\<close>, followed by white space (possibly none) and then
  by \<open>min\<close> in either case.
\<close>

definition specDurationAt :: "jsstring \<Rightarrow> jsstring \<Rightarrow> bool" where
  "specDurationAt line ds \<longleftrightarrow>
     (\<exists>pre ws post. line = pre @ ds @ ws @ post \<and> ds \<noteq> [] \<and> length ds \<le> 2 \<and>
        list_all isDigit ds \<and> list_all isWhite ws \<and> startsMin post)"

text \<open>
  A world for one call: credentials for text generation only, the answer \<open>foxJson\<close>,
  a store that rejects nothing. \<open>learnCall\<close> asks for one story in
  \<open>learn-stories\<close>, as the completion handlers and \<open>regenerate-story\<close> do.
\<close>

definition learnCategory :: category where
  "learnCategory =
     \<lparr> label = js ''Learning Adventures'', icon = [55356, 57235],
       prompt = js ''Generate educational stories that teach concepts through adventure. Focus on science, nature, problem-solving, and curiosity.'',
       theme = js ''learning'', ccategory = js ''educational'' \<rparr>"

definition foxWorld :: "nat world" where
  "foxWorld =
     \<lparr> runtime = natRuntime foxParse, openaiKey = True, elevenKey = False, hasReq = False,
       openaiAnswer = foxJson, ttsAnswer = (\<lambda>i. TtsNull), storeRejects = (\<lambda>op. False) \<rparr>"

definition learnCall :: call where
  "learnCall =
     \<lparr> argCategoryKey = js ''learn-stories'', argChildName = js ''friend'', argChildAge = 5,
       argTargetTotal = 1 \<rparr>"

definition foxStory :: "nat \<Rightarrow> story" where
  "foxStory n =
     \<lparr> sid = n, s_title = js ''Brave Fox'', s_description = js ''A tale'',
       s_content = js ''Once there was a fox.'', s_duration = 12,
       s_ageRange = \<lparr> ar_min = 3, ar_max = 7 \<rparr>, s_theme = js ''learning'',
       s_category = js ''educational'', s_thumbnail = [55356, 57235], isAIGenerated = True,
       isActive = True, generatedForCollection = Some (js ''learn-stories''), audioUrl = None,
       audioPending = False, totalPlays = 0, totalCompletions = 0 \<rparr>"

text \<open>
  An active AI-generated record of \<open>learn-stories\<close> with another title, as a
  second call would have written it in the meantime.
\<close>

definition owlStory :: story where
  "owlStory =
     \<lparr> sid = 1, s_title = js ''Kind Owl'', s_description = js ''A tale of patience'',
       s_content = js ''Once upon a branch'', s_duration = 8,
       s_ageRange = \<lparr> ar_min = 3, ar_max = 7 \<rparr>, s_theme = js ''learning'',
       s_category = js ''educational'', s_thumbnail = [55356, 57235], isAIGenerated = True,
       isActive = True, generatedForCollection = Some (js ''learn-stories''), audioUrl = None,
       audioPending = False, totalPlays = 0, totalCompletions = 0 \<rparr>"

text \<open>
  Two such calls in flight, their steps taken in turn: both count, both generate, both
  count again, both look for a duplicate, both look for audio, both create.
\<close>

definition raceSchedule :: "bool list" where
  "raceSchedule = [True, False, True, False, True, False, True, False, True, False, True, False]"










text \<open>
  The second story of \<open>seed.js\<close>, as the store holds it: hand-authored (not
  AI-generated, no collection), with the declared counters at their defaults.
\<close>

definition seedStory :: story where
  "seedStory =
     \<lparr> sid = 7, s_title = js ''The Kindness Tree'',
       s_description = js ''A story about spreading kindness'',
       s_content = js ''In a magical forest, there was a tree that grew kindness fruits. Every time someone did something kind, a new fruit would appear...'',
       s_duration = 12, s_ageRange = \<lparr> ar_min = 4, ar_max = 10 \<rparr>, s_theme = js ''kindness'',
       s_category = js ''audio'', s_thumbnail = [55356, 57139], isAIGenerated = False,
       isActive = True, generatedForCollection = None, audioUrl = None,
       audioPending = False, totalPlays = 0, totalCompletions = 0 \<rparr>"

section \<open>Notions used in the properties of the engine\<close>

text \<open>The candidate a stored document was built from.\<close>

definition candidateOf :: "story \<Rightarrow> candidate" where
  "candidateOf d =
     \<lparr> title = s_title d, description = s_description d, content = s_content d,
       duration = s_duration d, ageRange = s_ageRange d \<rparr>"


text \<open>
  The titles of the active records of a collection, in store order, as the duplicate
  lookup of lines 335-339 sees them.
\<close>

definition activeTitles :: "jsstring \<Rightarrow> store \<Rightarrow> jsstring list" where
  "activeTitles key db =
     map s_title (filter (\<lambda>s. generatedForCollection s = Some key \<and> isActive s) db)"


text \<open>
  \<open>added key db0 db\<close>: the store \<open>db\<close> is \<open>db0\<close> with records added at the end whose
  active titles in the collection differ from each other and from those of \<open>db0\<close>.
\<close>

definition added :: "jsstring \<Rightarrow> store \<Rightarrow> store \<Rightarrow> bool" where
  "added key db0 db \<longleftrightarrow>
     (\<exists>news. db = db0 @ news \<and> distinct (activeTitles key news) \<and>
        set (activeTitles key news) \<inter> set (activeTitles key db0) = {})"

text \<open>
  The invariant of the save loop, for a call that runs alone from the store \<open>db1\<close> with
  \<open>toSave\<close>: the store is \<open>db1\<close> followed by the records saved so far, and these
  come, in order, from the candidates already visited.
\<close>

fun loopInv :: "jsstring \<Rightarrow> store \<Rightarrow> candidate list \<Rightarrow> store \<Rightarrow> task \<Rightarrow> bool" where
  "loopInv key db1 toSave db (AwaitFindDuplicate i todo saved) \<longleftrightarrow>
     db = db1 @ saved \<and> (\<forall>d \<in> set saved. activeAI key d) \<and>
     (\<exists>seen. toSave = seen @ todo \<and> subseq (map candidateOf saved) seen)"
| "loopInv key db1 toSave db (AwaitFindAudio i todo saved) \<longleftrightarrow>
     db = db1 @ saved \<and> (\<forall>d \<in> set saved. activeAI key d) \<and>
     (\<exists>seen. toSave = seen @ todo \<and> subseq (map candidateOf saved) seen)"
| "loopInv key db1 toSave db (AwaitTts i todo saved) \<longleftrightarrow>
     db = db1 @ saved \<and> (\<forall>d \<in> set saved. activeAI key d) \<and>
     (\<exists>seen. toSave = seen @ todo \<and> subseq (map candidateOf saved) seen)"
| "loopInv key db1 toSave db (AwaitCreate i sd todo saved) \<longleftrightarrow>
     db = db1 @ saved \<and> (\<forall>d \<in> set saved. activeAI key d) \<and> activeAI key sd \<and>
     (\<exists>seen. toSave = seen @ candidateOf sd # todo \<and> subseq (map candidateOf saved) seen)"
| "loopInv key db1 toSave db (Done r) \<longleftrightarrow>
     (\<exists>saved. r = Inr saved \<and> db = db1 @ saved \<and> (\<forall>d \<in> set saved. activeAI key d) \<and>
        subseq (map candidateOf saved) toSave)"
| "loopInv key db1 toSave db t \<longleftrightarrow> False"


text \<open>
  The invariant behind the duplicate lookup, for a call that runs alone: once the
  lookup for a candidate has found nothing, no active record of the collection has its
  title, up to the insertion.
\<close>

fun freshInv :: "jsstring \<Rightarrow> store \<Rightarrow> store \<Rightarrow> task \<Rightarrow> bool" where
  "freshInv key db0 db (AwaitFindAudio i (s # todo) saved) \<longleftrightarrow>
     added key db0 db \<and> title s \<notin> set (activeTitles key db)"
| "freshInv key db0 db (AwaitTts i (s # todo) saved) \<longleftrightarrow>
     added key db0 db \<and> title s \<notin> set (activeTitles key db)"
| "freshInv key db0 db (AwaitCreate i sd todo saved) \<longleftrightarrow>
     added key db0 db \<and> s_title sd \<notin> set (activeTitles key db)"
| "freshInv key db0 db t \<longleftrightarrow> added key db0 db"

text \<open>
  The task of a call that started on the store \<open>db\<close>, once its first count and its
  text generation have settled. Neither writes to the store; while the call awaits
  them other calls may, so what the call does next it does on the store they have
  left.
\<close>

definition afterGeneration :: "'n world \<Rightarrow> call \<Rightarrow> category \<Rightarrow> store \<Rightarrow> task" where
  "afterGeneration w c cat db =
     (case step w c cat db AwaitCountExisting of
        (db', t', e) \<Rightarrow> (case step w c cat db' t' of (db'', t'', e') \<Rightarrow> t''))"


section \<open>Properties of the output parser\<close>

lemmas string_eval = js_def isWhite_def isDigit_def trim_def substring0_def split_def
  splitLines_def digitsVal_def orElse_def part_def

lemmas line_eval = sepHyphen_def sepEmDash_def sepEnDash_def sepColon_def sepBar_def
  lineParts_def durTail_def lineDuration_def isDashOrColon_def minSuffixTail_def
  isNumbering_def stripNumbering_def defaultContent_def lineCandidate_def slice0_def
  textLines_def parseGeneratedText_def deriveAgeRange_def Let_def

lemmas json_eval = truthyProp_def parseInt10_def andThen_def jsonDuration_def jsonCandidate_def
  indexOf_def lastIndexOf_def bracketSpan_def jsonTry_def jsonBranch_def parseAiText_def
  natRuntime_def

subsection \<open>Bounds and frames of the two loops\<close>

lemma set_slice0: "set (slice0 n xs) \<subseteq> set xs"
  by (simp add: slice0_def set_take_subset)

lemma length_slice0: "0 \<le> n \<Longrightarrow> length (slice0 n xs) \<le> nat n"
  by (simp add: slice0_def)

lemma parseLoop_nonpositive: "count \<le> 0 \<Longrightarrow> parseLoop n a count ls [] = []"
  by (cases ls) simp_all

lemma parseLoop_length:
  "length parsed \<le> nat count \<Longrightarrow> length (parseLoop n a count ls parsed) \<le> nat count"
  by (induction ls arbitrary: parsed) (auto simp: Let_def)

lemma parseLoop_skip_all:
  "\<forall>l \<in> set ls. length (lineParts l) < 3 \<Longrightarrow> parseLoop n a count ls parsed = parsed"
  by (induction ls arbitrary: parsed) (auto simp: Let_def)

lemma parseLoop_pred:
  assumes cand: "\<And>k line parts. P (lineCandidate n a k line parts)"
  shows "\<forall>c \<in> set parsed. P c \<Longrightarrow> \<forall>c \<in> set (parseLoop n a count ls parsed). P c"
proof (induction ls arbitrary: parsed)
  case Nil
  then show ?case by simp
next
  case (Cons line ls)
  have ext: "\<forall>c \<in> set (parsed @ [lineCandidate n a (length parsed) line (lineParts line)]). P c"
    using Cons.prems cand by simp
  show ?case
    using Cons.prems Cons.IH [OF Cons.prems] Cons.IH [OF ext] by (simp add: Let_def)
qed

lemma jsonLoop_pred:
  assumes cand: "\<And>obj c. jsonCandidate rt a obj = Inr c \<Longrightarrow> P c"
  shows "\<forall>c \<in> set acc. P c \<Longrightarrow> \<forall>c \<in> set (fst (jsonLoop rt a need arr acc)). P c"
proof (induction arr arbitrary: acc)
  case Nil
  then show ?case by simp
next
  case (Cons obj arr)
  show ?case
  proof (cases "jsonCandidate rt a obj")
    case (Inl err)
    then show ?thesis using Cons.prems Cons.IH [OF Cons.prems] by simp
  next
    case (Inr c)
    have ext: "\<forall>x \<in> set (acc @ [c]). P x"
      using Cons.prems cand [OF Inr] by simp
    show ?thesis
      using Inr ext Cons.prems Cons.IH [OF Cons.prems] Cons.IH [OF ext] by (simp add: Let_def)
  qed
qed

lemma jsonLoop_length:
  "0 < need \<Longrightarrow> int (length acc) < need \<Longrightarrow>
     int (length (fst (jsonLoop rt a need arr acc))) \<le> need"
  by (induction arr arbitrary: acc) (auto simp: Let_def split: sum.splits)

lemma jsonLoop_extends: "\<exists>cs. fst (jsonLoop rt a need arr acc) = acc @ cs"
proof (induction arr arbitrary: acc)
  case Nil
  then show ?case by simp
next
  case (Cons obj arr)
  show ?case
  proof (cases "jsonCandidate rt a obj")
    case (Inl err)
    then show ?thesis using Cons.IH [of acc] by simp
  next
    case (Inr c)
    obtain cs where "fst (jsonLoop rt a need arr (acc @ [c])) = (acc @ [c]) @ cs"
      using Cons.IH [of "acc @ [c]"] by blast
    then have "fst (jsonLoop rt a need arr (acc @ [c])) = acc @ (c # cs)" by simp
    then show ?thesis using Inr Cons.IH [of acc] by (simp add: Let_def)
  qed
qed

lemma jsonBranch_length: "0 < need \<Longrightarrow> int (length (jsonBranch rt t a need)) \<le> need"
  using jsonLoop_length [of need "[]" rt a]
  by (auto simp: jsonBranch_def jsonTry_def split: option.splits jsval.splits)

text \<open>The \<open>catch\<close> of line 285 takes every exception of the \<open>try\<close>.\<close>

lemma jsonBranchEnds_returns: "jsonBranchEnds rt t a need = Inr ()"
  by (simp add: jsonBranchEnds_def tryCatch_def split: sum.splits)

lemma parseAiTextOutcome_returns:
  "parseAiTextOutcome rt t n a need = Inr (parseAiText rt t n a need)"
  by (simp add: parseAiTextOutcome_def parseAiText_def jsonBranchEnds_returns andThen_def Let_def)

text \<open>
  An exception of the \<open>try\<close> is the \<open>SyntaxError\<close> of \<open>JSON.parse\<close> or the
  \<open>TypeError\<close> of a conversion.
\<close>

lemma toStr_throws: "toStr rt v = Inl err \<Longrightarrow> err = TypeError"
  by (cases v) (auto simp: Let_def split: if_splits)

lemma jsonCandidate_throws: "jsonCandidate rt a obj = Inl err \<Longrightarrow> err = TypeError"
  by (auto simp: jsonCandidate_def jsonDuration_def andThen_def Let_def
        split: sum.splits option.splits if_splits dest: toStr_throws)

lemma jsonLoop_throws: "snd (jsonLoop rt a need arr acc) = Inl err \<Longrightarrow> err = TypeError"
  by (induction arr arbitrary: acc)
     (auto simp: Let_def split: sum.splits if_splits dest: jsonCandidate_throws)

lemma jsonTry_throws:
  "snd (jsonTry rt t a need) = Inl err \<Longrightarrow>
     (\<exists>span. bracketSpan t = Some span \<and>
        (jsonParse rt span = None \<and> err = SyntaxError \<and> fst (jsonTry rt t a need) = [] \<or>
         (\<exists>arr. jsonParse rt span = Some (JArr arr) \<and> err = TypeError)))"
  by (auto simp: jsonTry_def split: option.splits jsval.splits dest: jsonLoop_throws)

lemma parseGeneratedText_length: "length (parseGeneratedText t n a count) \<le> nat count"
proof (cases "0 \<le> count")
  case True
  then show ?thesis unfolding parseGeneratedText_def by (rule length_slice0)
next
  case False
  then have "parseLoop n a count (textLines t) [] = []"
    by (simp add: parseLoop_nonpositive)
  then show ?thesis by (simp add: parseGeneratedText_def slice0_def)
qed

lemma parseAiText_length: "0 < need \<Longrightarrow> int (length (parseAiText rt t n a need)) \<le> need"
  using jsonBranch_length [of need rt t a] length_slice0 [of need "parseGeneratedText t n a need"]
  by (auto simp: parseAiText_def Let_def)

lemma parseGeneratedText_ageRange:
  "c \<in> set (parseGeneratedText t n a count) \<Longrightarrow> ageRange c = deriveAgeRange a"
proof -
  have "\<forall>c \<in> set (parseLoop n a count (textLines t) []). ageRange c = deriveAgeRange a"
    by (rule parseLoop_pred) (simp_all add: lineCandidate_def Let_def)
  then show "c \<in> set (parseGeneratedText t n a count) \<Longrightarrow> ageRange c = deriveAgeRange a"
    using set_slice0 [of count "parseLoop n a count (textLines t) []"]
    by (auto simp: parseGeneratedText_def)
qed

lemma jsonBranch_ageRange:
  "c \<in> set (jsonBranch rt t a need) \<Longrightarrow> ageRange c = deriveAgeRange a"
proof -
  have "\<forall>c \<in> set (fst (jsonLoop rt a need arr [])). ageRange c = deriveAgeRange a" for arr
    by (rule jsonLoop_pred)
       (auto simp: jsonCandidate_def andThen_def split: sum.splits)
  then show "c \<in> set (jsonBranch rt t a need) \<Longrightarrow> ageRange c = deriveAgeRange a"
    by (auto simp: jsonBranch_def jsonTry_def split: option.splits jsval.splits)
qed

lemma parseAiText_ageRange:
  assumes "c \<in> set (parseAiText rt t n a need)"
  shows "ageRange c = deriveAgeRange a"
proof (cases "t = [] \<or> jsonBranch rt t a need \<noteq> []")
  case True
  with assms have "c \<in> set (jsonBranch rt t a need)"
    by (auto simp: parseAiText_def Let_def split: if_splits)
  then show ?thesis by (rule jsonBranch_ageRange)
next
  case False
  with assms have "c \<in> set (slice0 need (parseGeneratedText t n a need))"
    by (simp add: parseAiText_def)
  then have "c \<in> set (parseGeneratedText t n a need)"
    using set_slice0 [of need "parseGeneratedText t n a need"] by auto
  then show ?thesis by (rule parseGeneratedText_ageRange)
qed



lemma jsonBranch_falls_through:
  "bracketSpan aiText = None \<or> (\<exists>span. bracketSpan aiText = Some span \<and> jsonParse rt span = None) \<Longrightarrow>
     jsonBranch rt aiText childAge need = []"
  by (auto simp: jsonBranch_def jsonTry_def)

lemma parseGeneratedText_garbage:
  "\<forall>line \<in> set (textLines aiText). length (lineParts line) < 3 \<Longrightarrow>
     parseGeneratedText aiText childName childAge count = []"
  by (simp add: parseGeneratedText_def parseLoop_skip_all slice0_def)

subsection \<open>The separators and the duration pattern\<close>

lemma lineParts_first:
  "lineParts line =
     (case specFirstSeparator line of Some sep \<Rightarrow> split sep line | None \<Rightarrow> split sepBar line)"
  by (simp add: lineParts_def specFirstSeparator_def separators_def Let_def not_le)

lemma lineParts_skip: "length (lineParts line) < 3 \<longleftrightarrow> specFirstSeparator line = None"
  by (simp add: lineParts_def specFirstSeparator_def separators_def Let_def not_le)

lemma startsMin_shape:
  "startsMin s \<Longrightarrow> \<exists>a r. s = a # r \<and> \<not> isWhite a \<and> \<not> isDigit a"
  by (cases s rule: startsMin.cases) (auto simp: isWhite_def isDigit_def)

lemma white_not_digit: "isWhite c \<Longrightarrow> \<not> isDigit c"
  by (auto simp: isWhite_def isDigit_def)

lemma dropWhile_white_min:
  assumes "list_all isWhite ws" and "startsMin post"
  shows "dropWhile isWhite (ws @ post) = post"
proof -
  obtain a r where "post = a # r" and "\<not> isWhite a"
    using startsMin_shape [OF assms(2)] by blast
  then show ?thesis using assms(1) by (simp add: dropWhile_append list_all_iff)
qed

lemma durTail_occurrence:
  "list_all isWhite ws \<Longrightarrow> startsMin post \<Longrightarrow> durTail (ws @ post)"
  by (simp add: durTail_def dropWhile_white_min)

lemma head_not_digit:
  assumes "list_all isWhite ws" and "startsMin post"
  shows "\<exists>x r. ws @ post = x # r \<and> \<not> isDigit x"
proof (cases ws)
  case Nil
  then show ?thesis using startsMin_shape [OF assms(2)] by auto
next
  case (Cons w ws')
  then show ?thesis using assms(1) by (auto simp: white_not_digit)
qed

lemma durMatchAt_complete:
  assumes "ds \<noteq> []" "length ds \<le> 2" "list_all isDigit ds" "list_all isWhite ws" "startsMin post"
  shows "durMatchAt (ds @ ws @ post) = Some ds"
proof -
  consider d1 where "ds = [d1]" | d1 d2 where "ds = [d1, d2]"
    using assms(1,2) by (cases ds rule: list.exhaust; cases "tl ds"; auto)
  then show ?thesis
  proof cases
    case 1
    obtain x r where xr: "ws @ post = x # r" "\<not> isDigit x"
      using head_not_digit [OF assms(4,5)] by blast
    have "durTail (x # r)" using durTail_occurrence [OF assms(4,5)] xr(1) by simp
    then show ?thesis using 1 xr assms(3) by simp
  next
    case 2
    then show ?thesis using assms(3) durTail_occurrence [OF assms(4,5)] by simp
  qed
qed

lemma durMatch_complete: "specDurationAt line ds \<Longrightarrow> durMatch line \<noteq> None"
proof -
  have "durMatch (pre @ ds @ ws @ post) \<noteq> None"
    if "ds \<noteq> []" "length ds \<le> 2" "list_all isDigit ds" "list_all isWhite ws" "startsMin post"
    for pre ws post
  proof (induction pre)
    case Nil
    obtain c cs where "ds @ ws @ post = c # cs" using \<open>ds \<noteq> []\<close> by (cases ds) auto
    then show ?case using durMatchAt_complete [OF that] by simp
  next
    case (Cons p pre)
    then show ?case by (simp split: option.splits)
  qed
  then show "specDurationAt line ds \<Longrightarrow> durMatch line \<noteq> None"
    unfolding specDurationAt_def by blast
qed

lemma durMatchAt_sound:
  "durMatchAt s = Some ds \<Longrightarrow>
     \<exists>ws post. s = ds @ ws @ post \<and> ds \<noteq> [] \<and> length ds \<le> 2 \<and> list_all isDigit ds \<and>
       list_all isWhite ws \<and> startsMin post"
proof (induction s rule: durMatchAt.induct)
  case (1 d1 d2 rest)
  show ?case
  proof (cases "isDigit d2")
    case True
    with 1 have ds: "ds = [d1, d2]" "isDigit d1" "durTail rest"
      by (auto split: if_splits)
    have "rest = takeWhile isWhite rest @ dropWhile isWhite rest" by simp
    moreover have "list_all isWhite (takeWhile isWhite rest)"
      by (simp add: list_all_iff) (meson set_takeWhileD)
    ultimately show ?thesis using ds True unfolding durTail_def
      by (intro exI [of _ "takeWhile isWhite rest"] exI [of _ "dropWhile isWhite rest"]) simp
  next
    case False
    with 1 have ds: "ds = [d1]" "isDigit d1" "durTail (d2 # rest)"
      by (auto split: if_splits)
    have "list_all isWhite (takeWhile isWhite (d2 # rest))"
      by (simp add: list_all_iff) (meson set_takeWhileD)
    then show ?thesis using ds unfolding durTail_def
      by (intro exI [of _ "takeWhile isWhite (d2 # rest)"] exI [of _ "dropWhile isWhite (d2 # rest)"])
         simp
  qed
qed simp_all

lemma durMatch_sound: "durMatch line = Some ds \<Longrightarrow> specDurationAt line ds"
proof (induction line)
  case Nil
  then show ?case by simp
next
  case (Cons c cs)
  show ?case
  proof (cases "durMatchAt (c # cs)")
    case None
    with Cons have "specDurationAt cs ds" by simp
    then obtain pre ws post where "cs = pre @ ds @ ws @ post" "ds \<noteq> []" "length ds \<le> 2"
      "list_all isDigit ds" "list_all isWhite ws" "startsMin post"
      unfolding specDurationAt_def by blast
    then show ?thesis unfolding specDurationAt_def
      by (intro exI [of _ "c # pre"] exI [of _ ws] exI [of _ post]) simp
  next
    case (Some ds')
    with Cons.prems have "ds' = ds" by simp
    with Some obtain ws post where "c # cs = ds @ ws @ post" "ds \<noteq> []" "length ds \<le> 2"
      "list_all isDigit ds" "list_all isWhite ws" "startsMin post"
      using durMatchAt_sound by blast
    then show ?thesis unfolding specDurationAt_def
      by (intro exI [of _ "[]"] exI [of _ ws] exI [of _ post]) simp
  qed
qed

lemma lineDuration_range: "5 \<le> lineDuration line \<and> lineDuration line \<le> 20"
  by (simp add: lineDuration_def split: option.splits)


lemma no_pattern_default: "durMatch line = None \<Longrightarrow> lineDuration line = 8"
  by (simp add: lineDuration_def)

lemma lineCandidate_content: "content (lineCandidate childName childAge k line parts) \<noteq> []"
  by (simp add: lineCandidate_def orElse_def defaultContent_def js_def Let_def)

lemma lineCandidate_default_content:
  "trim (join sepHyphen (drop 2 parts)) = [] \<Longrightarrow>
     content (lineCandidate childName childAge k line parts) = defaultContent childName"
  by (simp add: lineCandidate_def orElse_def Let_def)

lemma parseGeneratedText_content:
  "c \<in> set (parseGeneratedText aiText childName childAge count) \<Longrightarrow> content c \<noteq> []"
proof -
  have "\<forall>c \<in> set (parseLoop childName childAge count (textLines aiText) []). content c \<noteq> []"
    by (rule parseLoop_pred) (simp_all add: lineCandidate_content)
  then show "c \<in> set (parseGeneratedText aiText childName childAge count) \<Longrightarrow> content c \<noteq> []"
    using set_slice0 [of count "parseLoop childName childAge count (textLines aiText) []"]
    by (auto simp: parseGeneratedText_def)
qed

subsection \<open>Concrete runs\<close>

lemma foxLine_run:
  "parseGeneratedText foxLine childName childAge 1 =
     [\<lparr> title = js ''Brave Fox'', description = js ''A tale of courage'',
        content = js ''Once there was... - 12 min'', duration = 12,
        ageRange = deriveAgeRange childAge \<rparr>]"
  by (simp add: foxLine_def string_eval line_eval del: deriveAgeRange_def)

lemma owlLine_run:
  "parseGeneratedText owlLine childName childAge 1 =
     [\<lparr> title = js ''Kind Owl'', description = js ''A tale of patience'',
        content = js ''Once upon a branch'', duration = 8,
        ageRange = deriveAgeRange childAge \<rparr>]"
  by (simp add: owlLine_def string_eval line_eval del: deriveAgeRange_def)

lemma foxJson_run:
  "parseAiText (natRuntime foxParse) foxJson childName childAge 1 =
     [\<lparr> title = js ''Brave Fox'', description = js ''A tale'',
        content = js ''Once there was a fox.'', duration = 12,
        ageRange = deriveAgeRange childAge \<rparr>]"
  by (simp add: foxJson_def foxParse_def string_eval line_eval json_eval showNat.simps
        del: deriveAgeRange_def)

lemma foxLine_durMatch: "durMatch foxLine = Some (js ''12'')"
  by (simp add: foxLine_def string_eval durTail_def)

lemma owlLine_durMatch: "durMatch owlLine = None"
  by (simp add: owlLine_def string_eval durTail_def)

lemma draftLine_span: "bracketSpan draftLine = Some (js ''[draft]'')"
  by (simp add: draftLine_def string_eval bracketSpan_def indexOf_def lastIndexOf_def)

lemma draftLine_run:
  "slice0 1 (parseGeneratedText draftLine (js ''Ann'') 5 1) =
     [\<lparr> title = js ''[draft] Kind Owl'', description = js ''A tale of patience'',
        content = js ''Once upon a branch'', duration = 8,
        ageRange = \<lparr> ar_min = 3, ar_max = 7 \<rparr> \<rparr>]"
  by (simp add: draftLine_def string_eval line_eval)

lemma garbage_lines: "\<forall>line \<in> set (textLines (js ''garbage'')). length (lineParts line) < 3"
  by (simp add: string_eval line_eval)

lemma jsonTry_empty: "jsonTry rt [] a need = ([], Inr ())"
  by (simp add: jsonTry_def bracketSpan_def trim_def indexOf_def)

lemma maskedJson_try:
  "jsonTry (natRuntime maskedParse) maskedJson 5 1 = ([], Inl TypeError)"
  by (simp add: maskedJson_def maskedParse_def string_eval json_eval)

lemma maskedJson_lines:
  "map title (slice0 1 (parseGeneratedText maskedJson (js ''Ann'') 5 1)) = [js ''[{\"title\"'']"
  by (simp add: maskedJson_def string_eval line_eval)

lemma halfJson_try:
  "jsonTry (natRuntime halfParse) halfJson 5 2 =
     ([\<lparr> title = js ''Brave Fox'', description = [],
         content = js ''Once there was a fox.'', duration = 8,
         ageRange = \<lparr> ar_min = 3, ar_max = 7 \<rparr> \<rparr>], Inl TypeError)"
  by (simp add: halfJson_def halfParse_def string_eval json_eval deriveAgeRange_def)

subsection \<open>The claims about the parser\<close>

text \<open>
  C4. The output parser never throws and is bounded. Lines 259-293 end without an
  exception for every text, child name, child age and count
  (\<open>parseAiTextOutcome\<close> is \<open>Inr\<close> of the array \<open>parseAiText\<close>), and the line
  parser \<open>parseGeneratedText\<close> is a function of strings that has no throwing
  operation. The line parser returns at most \<open>count\<close> candidates (none for a count
  that is not positive); the two tiers together return at most \<open>need\<close> candidates
  for every \<open>need\<close> the caller can pass, which is positive (line 238 returns before
  the parse otherwise). When the text has no bracketed span, or \<open>JSON.parse\<close>
  throws on the span, the result is the line parser's. When the \<open>try\<close> ends in any
  exception, that of \<open>JSON.parse\<close> or that of a conversion of lines 274-277, the
  exception is caught: the result is the line parser's when nothing was pushed
  before it, and the candidates pushed before it otherwise. A text with no bracketed
  span and no line of three segments gives the empty list.
\<close>

theorem parser_total_and_bounded:
  "parseAiTextOutcome rt aiText childName childAge need =
     Inr (parseAiText rt aiText childName childAge need)
   \<and> length (parseGeneratedText aiText childName childAge count) \<le> nat count
   \<and> (0 < need \<longrightarrow> int (length (parseAiText rt aiText childName childAge need)) \<le> need)
   \<and> (aiText \<noteq> [] \<and> (bracketSpan aiText = None \<or>
          (\<exists>span. bracketSpan aiText = Some span \<and> jsonParse rt span = None)) \<longrightarrow>
        parseAiText rt aiText childName childAge need =
          slice0 need (parseGeneratedText aiText childName childAge need))
   \<and> (jsonTry rt aiText childAge need = (pushed, Inl err) \<longrightarrow>
        (err = SyntaxError \<or> err = TypeError) \<and>
        parseAiText rt aiText childName childAge need =
          (if pushed = [] then slice0 need (parseGeneratedText aiText childName childAge need)
           else pushed))
   \<and> (bracketSpan aiText = None \<and> (\<forall>line \<in> set (textLines aiText). length (lineParts line) < 3) \<longrightarrow>
        parseAiText rt aiText childName childAge need = [] \<and>
        parseGeneratedText aiText childName childAge count = [])"
proof (intro conjI impI)
  show "parseAiTextOutcome rt aiText childName childAge need =
     Inr (parseAiText rt aiText childName childAge need)"
    by (rule parseAiTextOutcome_returns)
next
  show "length (parseGeneratedText aiText childName childAge count) \<le> nat count"
    by (rule parseGeneratedText_length)
next
  assume "0 < need"
  then show "int (length (parseAiText rt aiText childName childAge need)) \<le> need"
    by (rule parseAiText_length)
next
  assume "aiText \<noteq> [] \<and> (bracketSpan aiText = None \<or>
          (\<exists>span. bracketSpan aiText = Some span \<and> jsonParse rt span = None))"
  then show "parseAiText rt aiText childName childAge need =
          slice0 need (parseGeneratedText aiText childName childAge need)"
    using jsonBranch_falls_through [of aiText rt childAge need] by (simp add: parseAiText_def)
next
  assume "jsonTry rt aiText childAge need = (pushed, Inl err)"
  then have "snd (jsonTry rt aiText childAge need) = Inl err" by simp
  then show "err = SyntaxError \<or> err = TypeError"
    using jsonTry_throws [of rt aiText childAge need err] by blast
next
  assume ended: "jsonTry rt aiText childAge need = (pushed, Inl err)"
  then have "aiText \<noteq> []" using jsonTry_empty [of rt childAge need] by auto
  then show "parseAiText rt aiText childName childAge need =
          (if pushed = [] then slice0 need (parseGeneratedText aiText childName childAge need)
           else pushed)"
    using ended by (simp add: parseAiText_def jsonBranch_def)
next
  assume g: "bracketSpan aiText = None \<and> (\<forall>line \<in> set (textLines aiText). length (lineParts line) < 3)"
  then have "jsonBranch rt aiText childAge need = []"
    using jsonBranch_falls_through [of aiText rt childAge need] by simp
  moreover have "parseGeneratedText aiText childName childAge need = []"
    using g by (simp add: parseGeneratedText_garbage)
  ultimately show "parseAiText rt aiText childName childAge need = []"
    by (simp add: parseAiText_def slice0_def)
next
  assume "bracketSpan aiText = None \<and> (\<forall>line \<in> set (textLines aiText). length (lineParts line) < 3)"
  then show "parseGeneratedText aiText childName childAge count = []"
    by (simp add: parseGeneratedText_garbage)
qed

theorem parser_total_and_bounded_witness:
  "(0::int) < 1
   \<and> int (length (parseAiText (natRuntime foxParse) foxJson (js ''Ann'') 5 1)) \<le> 1
   \<and> draftLine \<noteq> [] \<and> bracketSpan draftLine = Some (js ''[draft]'')
   \<and> jsonParse (natRuntime draftParse) (js ''[draft]'') = None
   \<and> length (parseAiText (natRuntime draftParse) draftLine (js ''Ann'') 5 1) = 1
   \<and> jsonTry (natRuntime maskedParse) maskedJson 5 1 = ([], Inl TypeError)
   \<and> parseAiTextOutcome (natRuntime maskedParse) maskedJson (js ''Ann'') 5 1 =
       Inr (slice0 1 (parseGeneratedText maskedJson (js ''Ann'') 5 1))
   \<and> map title (parseAiText (natRuntime maskedParse) maskedJson (js ''Ann'') 5 1) =
       [js ''[{\"title\"'']
   \<and> snd (jsonTry (natRuntime halfParse) halfJson 5 2) = Inl TypeError
   \<and> map title (fst (jsonTry (natRuntime halfParse) halfJson 5 2)) = [js ''Brave Fox'']
   \<and> parseAiTextOutcome (natRuntime halfParse) halfJson (js ''Ann'') 5 2 =
       Inr (fst (jsonTry (natRuntime halfParse) halfJson 5 2))
   \<and> bracketSpan (js ''garbage'') = None
   \<and> parseAiText (natRuntime draftParse) (js ''garbage'') (js ''Ann'') 5 3 = []
   \<and> parseGeneratedText (js ''garbage'') (js ''Ann'') 5 3 = []"
proof -
  have span: "bracketSpan draftLine = Some (js ''[draft]'')" by (rule draftLine_span)
  have thrown: "jsonParse (natRuntime draftParse) (js ''[draft]'') = None"
    by (simp add: natRuntime_def draftParse_def)
  have nonempty: "draftLine \<noteq> []" by (simp add: draftLine_def js_def)
  have nospan: "bracketSpan (js ''garbage'') = None"
    by (simp add: string_eval bracketSpan_def indexOf_def lastIndexOf_def)
  have "parseAiText (natRuntime draftParse) draftLine (js ''Ann'') 5 1 =
          slice0 1 (parseGeneratedText draftLine (js ''Ann'') 5 1)"
    using parser_total_and_bounded [where aiText = draftLine and childName = "js ''Ann''"
        and childAge = 5 and count = 1 and need = 1 and rt = "natRuntime draftParse"]
      span thrown nonempty by simp
  then have one: "length (parseAiText (natRuntime draftParse) draftLine (js ''Ann'') 5 1) = 1"
    by (simp add: draftLine_run)
  have bound: "int (length (parseAiText (natRuntime foxParse) foxJson (js ''Ann'') 5 1)) \<le> 1"
    using parser_total_and_bounded [where aiText = foxJson and childName = "js ''Ann''"
        and childAge = 5 and count = 1 and need = 1 and rt = "natRuntime foxParse"] by simp
  note masked = parser_total_and_bounded [where aiText = maskedJson and childName = "js ''Ann''"
        and childAge = 5 and count = 1 and need = 1 and rt = "natRuntime maskedParse"
        and pushed = "[]" and err = TypeError]
  have m1: "parseAiText (natRuntime maskedParse) maskedJson (js ''Ann'') 5 1 =
      slice0 1 (parseGeneratedText maskedJson (js ''Ann'') 5 1)"
    using masked maskedJson_try by simp
  have m2: "parseAiTextOutcome (natRuntime maskedParse) maskedJson (js ''Ann'') 5 1 =
       Inr (slice0 1 (parseGeneratedText maskedJson (js ''Ann'') 5 1))"
    using masked m1 by simp
  have m3: "map title (parseAiText (natRuntime maskedParse) maskedJson (js ''Ann'') 5 1) =
       [js ''[{\"title\"'']"
    using m1 maskedJson_lines by simp
  define fox where "fox = \<lparr> title = js ''Brave Fox'', description = [],
         content = js ''Once there was a fox.'', duration = 8,
         ageRange = \<lparr> ar_min = 3, ar_max = 7 \<rparr> \<rparr>"
  have half: "jsonTry (natRuntime halfParse) halfJson 5 2 = ([fox], Inl TypeError)"
    using halfJson_try by (simp add: fox_def)
  note halved = parser_total_and_bounded [where aiText = halfJson and childName = "js ''Ann''"
        and childAge = 5 and count = 2 and need = 2 and rt = "natRuntime halfParse"
        and pushed = "[fox]" and err = TypeError]
  have h1: "parseAiText (natRuntime halfParse) halfJson (js ''Ann'') 5 2 = [fox]"
    using halved half by simp
  have h2: "parseAiTextOutcome (natRuntime halfParse) halfJson (js ''Ann'') 5 2 =
       Inr (fst (jsonTry (natRuntime halfParse) halfJson 5 2))"
    using halved h1 half by simp
  have h3: "map title (fst (jsonTry (natRuntime halfParse) halfJson 5 2)) = [js ''Brave Fox'']"
    using half by (simp add: fox_def)
  have h4: "snd (jsonTry (natRuntime halfParse) halfJson 5 2) = Inl TypeError"
    using half by simp
  have "parseAiText (natRuntime draftParse) (js ''garbage'') (js ''Ann'') 5 3 = [] \<and>
        parseGeneratedText (js ''garbage'') (js ''Ann'') 5 3 = []"
    using parser_total_and_bounded [where aiText = "js ''garbage''" and childName = "js ''Ann''"
        and childAge = 5 and count = 3 and need = 3 and rt = "natRuntime draftParse"]
      nospan garbage_lines by simp
  then show ?thesis
    using span thrown nonempty nospan one bound maskedJson_try m2 m3 h2 h3 h4 by simp
qed

text \<open>
  C5. In line mode the segments of a line are those of the first of the separators
  " - ", " (U+2014) ", " (U+2013) ", ":", " | ", in that order, that splits the line
  into at least 3 segments; a line that no separator splits so is passed over and the
  loop goes on with the next line. The duration of a candidate is between 5 and 20: it
  is 8 when the line has no occurrence of 1-2 digits, optional white space and
  \<open>min\<close> (in either case), and otherwise the digits of such an occurrence, clamped.
  The line \<open>Brave Fox - A tale of courage - Once there was... - 12 min\<close> yields 12.
\<close>

theorem line_mode_separators_and_duration:
  "lineParts line =
     (case specFirstSeparator line of Some sep \<Rightarrow> split sep line | None \<Rightarrow> split sepBar line)
   \<and> (int (length parsed) < count \<longrightarrow>
        parseLoop childName childAge count (line # lines) parsed =
          (case specFirstSeparator line of
             None \<Rightarrow> parseLoop childName childAge count lines parsed
           | Some sep \<Rightarrow> parseLoop childName childAge count lines
               (parsed @ [lineCandidate childName childAge (length parsed) line (split sep line)])))
   \<and> duration (lineCandidate childName childAge k line parts) = lineDuration line
   \<and> 5 \<le> lineDuration line \<and> lineDuration line \<le> 20
   \<and> ((\<nexists>ds. specDurationAt line ds) \<longrightarrow> lineDuration line = 8)
   \<and> ((\<exists>ds. specDurationAt line ds) \<longrightarrow>
        (\<exists>ds. specDurationAt line ds \<and> lineDuration line = min 20 (max 5 (digitsVal ds))))
   \<and> map duration (parseGeneratedText foxLine childName childAge 1) = [12]"
proof (intro conjI impI)
  show "lineParts line =
     (case specFirstSeparator line of Some sep \<Rightarrow> split sep line | None \<Rightarrow> split sepBar line)"
    by (rule lineParts_first)
next
  assume lt: "int (length parsed) < count"
  show "parseLoop childName childAge count (line # lines) parsed =
          (case specFirstSeparator line of
             None \<Rightarrow> parseLoop childName childAge count lines parsed
           | Some sep \<Rightarrow> parseLoop childName childAge count lines
               (parsed @ [lineCandidate childName childAge (length parsed) line (split sep line)]))"
  proof (cases "specFirstSeparator line")
    case None
    then have "length (lineParts line) < 3" by (simp add: lineParts_skip)
    then show ?thesis using lt None by simp
  next
    case (Some sep)
    then have "\<not> length (lineParts line) < 3" by (simp add: lineParts_skip)
    moreover have "lineParts line = split sep line" using Some by (simp add: lineParts_first)
    ultimately show ?thesis using lt Some by (simp add: Let_def)
  qed
next
  show "duration (lineCandidate childName childAge k line parts) = lineDuration line"
    by (simp add: lineCandidate_def Let_def)
next
  show "5 \<le> lineDuration line" using lineDuration_range by simp
next
  show "lineDuration line \<le> 20" using lineDuration_range by simp
next
  assume "\<nexists>ds. specDurationAt line ds"
  then have "durMatch line = None"
    using durMatch_sound [of line] by (cases "durMatch line") auto
  then show "lineDuration line = 8" by (rule no_pattern_default)
next
  assume "\<exists>ds. specDurationAt line ds"
  then obtain ds where "durMatch line = Some ds"
    using durMatch_complete [of line] by (cases "durMatch line") auto
  then have "specDurationAt line ds \<and> lineDuration line = min 20 (max 5 (digitsVal ds))"
    using durMatch_sound [of line ds] by (simp add: lineDuration_def)
  then show "\<exists>ds. specDurationAt line ds \<and> lineDuration line = min 20 (max 5 (digitsVal ds))"
    by blast
next
  show "map duration (parseGeneratedText foxLine childName childAge 1) = [12]"
    by (simp add: foxLine_run)
qed

theorem line_mode_separators_and_duration_witness:
  "specFirstSeparator owlLine = Some sepHyphen
   \<and> (\<nexists>ds. specDurationAt owlLine ds) \<and> lineDuration owlLine = 8
   \<and> specDurationAt foxLine (js ''12'') \<and> lineDuration foxLine = 12
   \<and> (\<exists>ds. specDurationAt foxLine ds \<and> lineDuration foxLine = min 20 (max 5 (digitsVal ds)))
   \<and> int (length ([]::candidate list)) < 1
   \<and> parseLoop (js ''Ann'') 5 1 [js ''garbage'', owlLine] [] =
       parseLoop (js ''Ann'') 5 1 [owlLine] []"
proof -
  have sep: "specFirstSeparator owlLine = Some sepHyphen"
    by (simp add: owlLine_def specFirstSeparator_def separators_def string_eval sepHyphen_def)
  have absent: "\<nexists>ds. specDurationAt owlLine ds"
    using durMatch_complete [of owlLine] owlLine_durMatch by blast
  have present: "specDurationAt foxLine (js ''12'')"
    using durMatch_sound [OF foxLine_durMatch] .
  have nosep: "specFirstSeparator (js ''garbage'') = None"
    by (simp add: specFirstSeparator_def separators_def string_eval line_eval)
  have d8: "lineDuration owlLine = 8"
    using line_mode_separators_and_duration [where line = owlLine] absent by blast
  have d12: "lineDuration foxLine = 12"
    by (simp add: lineDuration_def foxLine_durMatch string_eval)
  have "int (length ([]::candidate list)) < 1 \<longrightarrow>
      parseLoop (js ''Ann'') 5 1 [js ''garbage'', owlLine] [] =
        (case specFirstSeparator (js ''garbage'') of
           None \<Rightarrow> parseLoop (js ''Ann'') 5 1 [owlLine] []
         | Some sep \<Rightarrow> parseLoop (js ''Ann'') 5 1 [owlLine]
             ([] @ [lineCandidate (js ''Ann'') 5 (length ([]::candidate list)) (js ''garbage'')
                      (split sep (js ''garbage''))]))"
    using line_mode_separators_and_duration [where line = "js ''garbage''" and parsed = "[]"
        and count = 1 and childName = "js ''Ann''" and childAge = 5 and lines = "[owlLine]"]
    by blast
  then have skip: "parseLoop (js ''Ann'') 5 1 [js ''garbage'', owlLine] [] =
       parseLoop (js ''Ann'') 5 1 [owlLine] []"
    using nosep by (simp del: parseLoop.simps)
  have clamped: "\<exists>ds. specDurationAt foxLine ds \<and> lineDuration foxLine = min 20 (max 5 (digitsVal ds))"
    using line_mode_separators_and_duration [where line = foxLine] present by blast
  show ?thesis using sep absent present d8 d12 clamped skip by simp
qed

text \<open>
  C6. For every child age, every candidate of either tier carries the age range
  \<open>{min: max(2, childAge - 2), max: min(12, childAge + 2)}\<close>: \<open>{3, 7}\<close> for a child of
  5, and a minimum of 2 for a child of 1.
\<close>

theorem candidate_ageRange:
  "c \<in> set (parseGeneratedText aiText childName childAge count) \<or>
   c \<in> set (parseAiText rt aiText childName childAge need) \<Longrightarrow>
     ageRange c = \<lparr> ar_min = max 2 (childAge - 2), ar_max = min 12 (childAge + 2) \<rparr>"
  using parseGeneratedText_ageRange [of c aiText childName childAge count]
    parseAiText_ageRange [of c rt aiText childName childAge need]
  by (auto simp: deriveAgeRange_def)

theorem candidate_ageRange_witness:
  "map ageRange (parseAiText (natRuntime foxParse) foxJson (js ''Ann'') 5 1) =
     [\<lparr> ar_min = 3, ar_max = 7 \<rparr>]
   \<and> map ageRange (parseGeneratedText foxLine (js ''Ann'') 5 1) = [\<lparr> ar_min = 3, ar_max = 7 \<rparr>]
   \<and> map (ar_min \<circ> ageRange) (parseGeneratedText foxLine (js ''Ann'') 1 1) = [2]"
proof -
  define c5 where "c5 = \<lparr> title = js ''Brave Fox'', description = js ''A tale'',
        content = js ''Once there was a fox.'', duration = 12,
        ageRange = deriveAgeRange 5 \<rparr>"
  define l5 where "l5 = \<lparr> title = js ''Brave Fox'', description = js ''A tale of courage'',
        content = js ''Once there was... - 12 min'', duration = 12,
        ageRange = deriveAgeRange 5 \<rparr>"
  define l1 where "l1 = \<lparr> title = js ''Brave Fox'', description = js ''A tale of courage'',
        content = js ''Once there was... - 12 min'', duration = 12,
        ageRange = deriveAgeRange 1 \<rparr>"
  have r5: "parseAiText (natRuntime foxParse) foxJson (js ''Ann'') 5 1 = [c5]"
    by (simp add: foxJson_run c5_def)
  have s5: "parseGeneratedText foxLine (js ''Ann'') 5 1 = [l5]"
    by (simp add: foxLine_run l5_def)
  have s1: "parseGeneratedText foxLine (js ''Ann'') 1 1 = [l1]"
    by (simp add: foxLine_run l1_def)
  have "ageRange c5 = \<lparr> ar_min = 3, ar_max = 7 \<rparr>"
    using candidate_ageRange [where c = c5 and childAge = 5 and rt = "natRuntime foxParse"
        and aiText = foxJson and childName = "js ''Ann''" and need = 1] r5
    by simp
  moreover have "ageRange l5 = \<lparr> ar_min = 3, ar_max = 7 \<rparr>"
    using candidate_ageRange [where c = l5 and childAge = 5 and aiText = foxLine
        and childName = "js ''Ann''" and count = 1] s5
    by simp
  moreover have "ar_min (ageRange l1) = 2"
    using candidate_ageRange [where c = l1 and childAge = 1 and aiText = foxLine
        and childName = "js ''Ann''" and count = 1] s1
    by simp
  ultimately show ?thesis using r5 s5 s1 by simp
qed

text \<open>
  C10. Every candidate has a non-empty content body. The line mode keeps this (the
  default body stands in when the rejoined segments trim to nothing, see
  \<open>parseGeneratedText_content\<close> and \<open>lineCandidate_default_content\<close>). The JSON
  branch does not: line 272 tests \<open>obj.content\<close> before line 276 trims it, so a
  content of white space only is accepted and becomes the empty string. The run below
  is the JSON branch on such an answer.
\<close>

theorem json_blank_content_accepted:
  "map content (parseAiText (natRuntime blankParse) blankJson (js ''Ann'') 5 1) = [[]]"
  by (simp add: blankJson_def blankParse_def string_eval line_eval json_eval showNat.simps)

section \<open>Properties of the replenishment engine\<close>

subsection \<open>Running a call\<close>

lemma run_Done [simp]: "run w c cat db (Done r) = \<lparr> result = r, finalStore = db, trace = [] \<rparr>"
  by (simp add: run.simps isDone_def)

lemma run_step:
  "\<not> isDone t \<Longrightarrow> step w c cat db t = (db', t', e) \<Longrightarrow>
     run w c cat db t = (run w c cat db' t') \<lparr> trace := e # trace (run w c cat db' t') \<rparr>"
  by (subst run.simps) (simp add: Let_def)

lemma run_invariant:
  assumes init: "I db t"
    and pres: "\<And>db t db' t' e. I db t \<Longrightarrow> \<not> isDone t \<Longrightarrow> step w c cat db t = (db', t', e) \<Longrightarrow> I db' t'"
  shows "I (finalStore (run w c cat db t)) (Done (result (run w c cat db t)))"
  using init pres
proof (induction w c cat db t rule: run.induct)
  case (1 w c cat db t)
  show ?case
  proof (cases "isDone t")
    case True
    then obtain r where "t = Done r" by (cases t) (simp_all add: isDone_def)
    then show ?thesis using "1.prems"(1) by simp
  next
    case False
    obtain db' t' e where st: "step w c cat db t = (db', t', e)" by (cases "step w c cat db t") auto
    have next_inv: "I db' t'" using "1.prems"(2) [OF "1.prems"(1) False st] .
    have "I (finalStore (run w c cat db' t')) (Done (result (run w c cat db' t')))"
      using "1.IH" [OF False st [symmetric] refl next_inv "1.prems"(2)] .
    then show ?thesis by (simp add: run_step [OF False st])
  qed
qed


lemma step_appends:
  "step w c cat db t = (db', t', e) \<Longrightarrow> \<exists>news. db' = db @ news"
  by (cases "(w, c, cat, db, t)" rule: step.cases)
     (auto simp: Let_def split: if_splits option.splits tts_outcome.splits)

lemma run_appends: "\<exists>news. finalStore (run w c cat db t) = db @ news"
proof -
  have "(\<lambda>d t. \<exists>news. d = db @ news) (finalStore (run w c cat db t)) (Done (result (run w c cat db t)))"
  proof (rule run_invariant)
    show "\<exists>news. db = db @ news" by simp
  next
    fix d t d' t' e
    assume "\<exists>news. d = db @ news" and "step w c cat d t = (d', t', e)"
    then show "\<exists>news. d' = db @ news" using step_appends [of w c cat d t d' t' e] by auto
  qed
  then show ?thesis .
qed

lemma interleave_appends:
  "\<exists>news. fst (interleave A B schedule (db, ta, tb)) = db @ news"
proof (induction schedule arbitrary: db ta tb)
  case Nil
  then show ?case by simp
next
  case (Cons first schedule)
  obtain wa ca cata where A: "A = (wa, ca, cata)" by (cases A)
  obtain wb cb catb where B: "B = (wb, cb, catb)" by (cases B)
  show ?case
  proof (cases first)
    case True
    obtain db' ta' e where st: "step wa ca cata db ta = (db', ta', e)"
      by (cases "step wa ca cata db ta") auto
    obtain n1 where "db' = db @ n1" using step_appends [OF st] by blast
    moreover obtain n2 where "fst (interleave A B schedule (db', ta', tb)) = db' @ n2"
      using Cons.IH by blast
    ultimately show ?thesis using True st A B by simp
  next
    case False
    obtain db' tb' e where st: "step wb cb catb db tb = (db', tb', e)"
      by (cases "step wb cb catb db tb") auto
    obtain n1 where "db' = db @ n1" using step_appends [OF st] by blast
    moreover obtain n2 where "fst (interleave A B schedule (db', ta, tb')) = db' @ n2"
      using Cons.IH by blast
    ultimately show ?thesis using False st A B by simp
  qed
qed



subsection \<open>The save loop\<close>

lemma candidateOf_storyData [simp]:
  "candidateOf (storyData c cat s) = s"
  "candidateOf (sd \<lparr> audioUrl := u \<rparr>) = candidateOf sd"
  "candidateOf (sd \<lparr> audioPending := p \<rparr>) = candidateOf sd"
  "candidateOf (createStory db sd) = candidateOf sd"
  by (simp_all add: candidateOf_def storyData_def createStory_def)

lemma activeAI_storyData [simp]:
  "activeAI (argCategoryKey c) (storyData c cat s)"
  "activeAI key (sd \<lparr> audioUrl := u \<rparr>) = activeAI key sd"
  "activeAI key (sd \<lparr> audioPending := p \<rparr>) = activeAI key sd"
  "activeAI key (createStory db sd) = activeAI key sd"
  by (simp_all add: activeAI_def storyData_def createStory_def)

lemma loopInv_loopHead:
  "loopInv key db1 toSave db (loopHead i todo saved) \<longleftrightarrow>
     db = db1 @ saved \<and> (\<forall>d \<in> set saved. activeAI key d) \<and>
     (\<exists>seen. toSave = seen @ todo \<and> subseq (map candidateOf saved) seen)"
  by (auto simp: loopHead_def)

lemma subseq_snoc_skip: "subseq xs seen \<Longrightarrow> subseq xs (seen @ [s])"
  using list_emb_append_mono [of "(=)" xs seen "[]" "[s]"] by simp

lemma subseq_snoc_keep: "subseq xs seen \<Longrightarrow> subseq (xs @ [s]) (seen @ [s])"
  using list_emb_append_mono [of "(=)" xs seen "[s]" "[s]"] by simp

lemma loopInv_step:
  assumes "loopInv (argCategoryKey c) db1 toSave db t" and "\<not> isDone t"
    and "step w c cat db t = (db', t', e)"
  shows "loopInv (argCategoryKey c) db1 toSave db' t'"
proof (cases t)
  case (AwaitFindDuplicate i todo saved)
  show ?thesis
  proof (cases todo)
    case Nil
    with assms AwaitFindDuplicate show ?thesis by auto
  next
    case (Cons s rest)
    from assms(1) AwaitFindDuplicate Cons obtain seen where
      seen: "toSave = seen @ s # rest" "subseq (map candidateOf saved) seen"
        "db = db1 @ saved" "\<forall>d \<in> set saved. activeAI (argCategoryKey c) d"
      by auto
    have next_ok: "loopInv (argCategoryKey c) db1 toSave db (loopHead (i + 1) rest saved)"
      unfolding loopInv_loopHead using seen subseq_snoc_skip [OF seen(2), of s]
      by (intro conjI exI [of _ "seen @ [s]"]) simp_all
    show ?thesis using assms(3) AwaitFindDuplicate Cons next_ok assms(1)
      by (auto split: if_splits option.splits)
  qed
next
  case (AwaitFindAudio i todo saved)
  show ?thesis
  proof (cases todo)
    case Nil
    with assms AwaitFindAudio show ?thesis by auto
  next
    case (Cons s rest)
    from assms(1) AwaitFindAudio Cons obtain seen where
      seen: "toSave = seen @ s # rest" "subseq (map candidateOf saved) seen"
        "db = db1 @ saved" "\<forall>d \<in> set saved. activeAI (argCategoryKey c) d"
      by auto
    have next_ok: "loopInv (argCategoryKey c) db1 toSave db (loopHead (i + 1) rest saved)"
      unfolding loopInv_loopHead using seen subseq_snoc_skip [OF seen(2), of s]
      by (intro conjI exI [of _ "seen @ [s]"]) simp_all
    show ?thesis using assms(3) AwaitFindAudio Cons next_ok seen
      by (auto simp: Let_def split: if_splits option.splits)
  qed
next
  case (AwaitTts i todo saved)
  show ?thesis
  proof (cases todo)
    case Nil
    with assms AwaitTts show ?thesis by auto
  next
    case (Cons s rest)
    from assms(1) AwaitTts Cons obtain seen where
      seen: "toSave = seen @ s # rest" "subseq (map candidateOf saved) seen"
        "db = db1 @ saved" "\<forall>d \<in> set saved. activeAI (argCategoryKey c) d"
      by auto
    show ?thesis using assms(3) AwaitTts Cons seen
      by (auto simp: Let_def split: if_splits tts_outcome.splits)
  qed
next
  case (AwaitCreate i sd todo saved)
  from assms(1) AwaitCreate obtain seen where
    seen: "toSave = seen @ candidateOf sd # todo" "subseq (map candidateOf saved) seen"
      "db = db1 @ saved" "\<forall>d \<in> set saved. activeAI (argCategoryKey c) d"
      "activeAI (argCategoryKey c) sd"
    by auto
  have skip: "loopInv (argCategoryKey c) db1 toSave db (loopHead (i + 1) todo saved)"
    unfolding loopInv_loopHead using seen subseq_snoc_skip [OF seen(2), of "candidateOf sd"]
    by (intro conjI exI [of _ "seen @ [candidateOf sd]"]) simp_all
  have keep: "loopInv (argCategoryKey c) db1 toSave (db @ [createStory db sd])
                (loopHead (i + 1) todo (saved @ [createStory db sd]))"
    unfolding loopInv_loopHead using seen subseq_snoc_keep [OF seen(2), of "candidateOf sd"]
    by (intro conjI exI [of _ "seen @ [candidateOf sd]"]) simp_all
  show ?thesis using assms(3) AwaitCreate skip keep
    by (auto simp: Let_def split: if_splits)
qed (use assms in \<open>auto simp: isDone_def\<close>)


lemma loop_outcome:
  assumes "loopInv (argCategoryKey c) db1 toSave db t"
  shows "\<exists>saved. result (run w c cat db t) = Inr saved \<and> finalStore (run w c cat db t) = db1 @ saved \<and>
           (\<forall>d \<in> set saved. activeAI (argCategoryKey c) d) \<and> subseq (map candidateOf saved) toSave"
proof -
  have "loopInv (argCategoryKey c) db1 toSave (finalStore (run w c cat db t))
          (Done (result (run w c cat db t)))"
    by (rule run_invariant [where I = "loopInv (argCategoryKey c) db1 toSave", OF assms])
       (rule loopInv_step)
  then show ?thesis by auto
qed

lemma run_recount:
  "\<exists>news. finalStore (run w c cat db1 (AwaitCountLatest cands)) = db1 @ news \<and>
     (result (run w c cat db1 (AwaitCountLatest cands)) = Inr news \<or>
      result (run w c cat db1 (AwaitCountLatest cands)) = Inl StoreError \<and> news = []) \<and>
     (\<forall>d \<in> set news. activeAI (argCategoryKey c) d) \<and>
     subseq (map candidateOf news)
       (take (nat (max 0 (argTargetTotal c - countDocuments db1 (argCategoryKey c)))) cands)"
proof -
  define remainingNeed where
    "remainingNeed = max 0 (argTargetTotal c - countDocuments db1 (argCategoryKey c))"
  let ?t = "AwaitCountLatest cands"
  have nd: "\<not> isDone ?t" by (simp add: isDone_def)
  have st: "step w c cat db1 ?t =
      (if storeRejects w CountLatest then (db1, Done (Inl StoreError), StoreCount)
       else if remainingNeed \<le> 0 then (db1, Done (Inr []), StoreCount)
       else (db1, loopHead 0 (take (nat remainingNeed) cands) [], StoreCount))"
    by (simp add: Let_def slice0_def remainingNeed_def)
  consider (rejected) "storeRejects w CountLatest"
    | (enough) "\<not> storeRejects w CountLatest" "remainingNeed \<le> 0"
    | (short) "\<not> storeRejects w CountLatest" "\<not> remainingNeed \<le> 0"
    by blast
  then have "\<exists>news. finalStore (run w c cat db1 ?t) = db1 @ news \<and>
     (result (run w c cat db1 ?t) = Inr news \<or>
      result (run w c cat db1 ?t) = Inl StoreError \<and> news = []) \<and>
     (\<forall>d \<in> set news. activeAI (argCategoryKey c) d) \<and>
     subseq (map candidateOf news) (take (nat remainingNeed) cands)"
  proof cases
    case rejected
    then have "step w c cat db1 ?t = (db1, Done (Inl StoreError), StoreCount)"
      by (simp add: st del: step.simps)
    from run_step [OF nd this] show ?thesis by simp
  next
    case enough
    then have "step w c cat db1 ?t = (db1, Done (Inr []), StoreCount)"
      by (simp add: st del: step.simps)
    from run_step [OF nd this] show ?thesis by simp
  next
    case short
    let ?toSave = "take (nat remainingNeed) cands"
    from short have st': "step w c cat db1 ?t = (db1, loopHead 0 ?toSave [], StoreCount)"
      by (simp add: st del: step.simps)
    have "loopInv (argCategoryKey c) db1 ?toSave db1 (loopHead 0 ?toSave [])"
      unfolding loopInv_loopHead by (intro conjI exI [of _ "[]"]) simp_all
    from loop_outcome [OF this, of w cat] run_step [OF nd st'] show ?thesis by auto
  qed
  then show ?thesis unfolding remainingNeed_def .
qed

lemma subseq_length_le: "subseq xs ys \<Longrightarrow> length xs \<le> length ys"
  by (rule list_emb_length)

lemma run_solo:
  "\<exists>news. finalStore (run w c cat db AwaitCountExisting) = db @ news \<and>
     (result (run w c cat db AwaitCountExisting) = Inr news \<or>
      result (run w c cat db AwaitCountExisting) = Inl StoreError \<and> news = []) \<and>
     (\<forall>d \<in> set news. activeAI (argCategoryKey c) d) \<and>
     int (length news) \<le> max 0 (argTargetTotal c - countDocuments db (argCategoryKey c))"
proof -
  define need where "need = max 0 (argTargetTotal c - countDocuments db (argCategoryKey c))"
  define cands where
    "cands = parseAiText (runtime w) (openaiAnswer w) (argChildName c) (argChildAge c) need"
  let ?t = "AwaitCountExisting"
  have nd: "\<not> isDone ?t" by (simp add: isDone_def)
  have nd2: "\<not> isDone (AwaitOpenAI need)" by (simp add: isDone_def)
  have st1: "step w c cat db ?t =
      (if storeRejects w CountExisting then (db, Done (Inl StoreError), StoreCount)
       else if need \<le> 0 then (db, Done (Inr []), StoreCount)
       else if openaiKey w then (db, AwaitOpenAI need, StoreCount)
       else (db, Done (Inr []), StoreCount))"
    by (simp add: Let_def need_def)
  have st2: "step w c cat db (AwaitOpenAI need) =
      (if cands = [] then (db, Done (Inr []), TextGeneration)
       else (db, AwaitCountLatest cands, TextGeneration))"
    by (simp add: Let_def cands_def)
  have need0: "0 \<le> need" by (simp add: need_def)
  consider (rejected) "storeRejects w CountExisting"
    | (enough) "\<not> storeRejects w CountExisting" "need \<le> 0"
    | (nokey) "\<not> storeRejects w CountExisting" "\<not> need \<le> 0" "\<not> openaiKey w"
    | (unparsed) "\<not> storeRejects w CountExisting" "\<not> need \<le> 0" "openaiKey w" "cands = []"
    | (parsed) "\<not> storeRejects w CountExisting" "\<not> need \<le> 0" "openaiKey w" "cands \<noteq> []"
    by blast
  then have "\<exists>news. finalStore (run w c cat db ?t) = db @ news \<and>
     (result (run w c cat db ?t) = Inr news \<or>
      result (run w c cat db ?t) = Inl StoreError \<and> news = []) \<and>
     (\<forall>d \<in> set news. activeAI (argCategoryKey c) d) \<and> int (length news) \<le> need"
  proof cases
    case rejected
    then have "step w c cat db ?t = (db, Done (Inl StoreError), StoreCount)"
      by (simp add: st1 del: step.simps)
    from run_step [OF nd this] need0 show ?thesis by simp
  next
    case enough
    then have "step w c cat db ?t = (db, Done (Inr []), StoreCount)"
      by (simp add: st1 del: step.simps)
    from run_step [OF nd this] need0 show ?thesis by simp
  next
    case nokey
    then have "step w c cat db ?t = (db, Done (Inr []), StoreCount)"
      by (simp add: st1 del: step.simps)
    from run_step [OF nd this] need0 show ?thesis by simp
  next
    case unparsed
    then have s1: "step w c cat db ?t = (db, AwaitOpenAI need, StoreCount)"
      by (simp add: st1 del: step.simps)
    from unparsed have s2: "step w c cat db (AwaitOpenAI need) = (db, Done (Inr []), TextGeneration)"
      by (simp add: st2 del: step.simps)
    from run_step [OF nd s1] run_step [OF nd2 s2] need0 show ?thesis by simp
  next
    case parsed
    then have s1: "step w c cat db ?t = (db, AwaitOpenAI need, StoreCount)"
      by (simp add: st1 del: step.simps)
    from parsed have s2:
      "step w c cat db (AwaitOpenAI need) = (db, AwaitCountLatest cands, TextGeneration)"
      by (simp add: st2 del: step.simps)
    obtain news where news: "finalStore (run w c cat db (AwaitCountLatest cands)) = db @ news"
      "result (run w c cat db (AwaitCountLatest cands)) = Inr news \<or>
       result (run w c cat db (AwaitCountLatest cands)) = Inl StoreError \<and> news = []"
      "\<forall>d \<in> set news. activeAI (argCategoryKey c) d"
      "subseq (map candidateOf news) (take (nat need) cands)"
      using run_recount [of w c cat db cands] unfolding need_def by blast
    have "length news \<le> length (take (nat need) cands)"
      using subseq_length_le [OF news(4)] by simp
    also have "\<dots> \<le> nat need" by simp
    finally have "int (length news) \<le> need" using need0 by linarith
    with news run_step [OF nd s1] run_step [OF nd2 s2] show ?thesis by simp
  qed
  then show ?thesis unfolding need_def .
qed

text \<open>The call up to the end of its text generation, and from there on.\<close>

lemma afterGeneration_cases:
  "afterGeneration w c cat db =
     (let need = max 0 (argTargetTotal c - countDocuments db (argCategoryKey c));
          parsed = parseAiText (runtime w) (openaiAnswer w) (argChildName c) (argChildAge c) need
      in if storeRejects w CountExisting then Done (Inl StoreError)
         else if need \<le> 0 \<or> \<not> openaiKey w \<or> parsed = [] then Done (Inr [])
         else AwaitCountLatest parsed)"
  by (simp add: afterGeneration_def Let_def)

lemma step_first:
  "\<exists>t1. step w c cat db AwaitCountExisting = (db, t1, StoreCount) \<and>
     ((\<exists>r. t1 = Done r) \<or> (\<exists>need. t1 = AwaitOpenAI need))"
  by (simp add: Let_def)

lemma step_second: "\<exists>t2. step w c cat db (AwaitOpenAI need) = (db, t2, TextGeneration)"
  by (simp add: Let_def)

lemma run_afterGeneration:
  "result (run w c cat db AwaitCountExisting) = result (run w c cat db (afterGeneration w c cat db))
   \<and> finalStore (run w c cat db AwaitCountExisting) =
       finalStore (run w c cat db (afterGeneration w c cat db))"
proof -
  have nd: "\<not> isDone AwaitCountExisting" by (simp add: isDone_def)
  obtain t1 where s1: "step w c cat db AwaitCountExisting = (db, t1, StoreCount)"
    and t1: "(\<exists>r. t1 = Done r) \<or> (\<exists>need. t1 = AwaitOpenAI need)"
    using step_first [of w c cat db] by blast
  from t1 show ?thesis
  proof
    assume "\<exists>r. t1 = Done r"
    then obtain r where r: "t1 = Done r" by blast
    have "afterGeneration w c cat db = Done r"
      unfolding afterGeneration_def s1 r by simp
    then show ?thesis using run_step [OF nd s1] r by simp
  next
    assume "\<exists>need. t1 = AwaitOpenAI need"
    then obtain need where n: "t1 = AwaitOpenAI need" by blast
    have nd2: "\<not> isDone (AwaitOpenAI need)" by (simp add: isDone_def)
    obtain t2 where s2: "step w c cat db (AwaitOpenAI need) = (db, t2, TextGeneration)"
      using step_second [of w c cat db need] by blast
    have "afterGeneration w c cat db = t2"
      unfolding afterGeneration_def s1 n prod.case s2 by simp
    then show ?thesis using run_step [OF nd s1] run_step [OF nd2 s2] n by simp
  qed
qed

lemma run_regenerated:
  assumes below: "countDocuments db (argCategoryKey c) \<le> argTargetTotal c"
  shows "\<exists>news. finalStore (run w c cat db1 (afterGeneration w c cat db)) = db1 @ news \<and>
     (result (run w c cat db1 (afterGeneration w c cat db)) = Inr news \<or>
      result (run w c cat db1 (afterGeneration w c cat db)) = Inl StoreError \<and> news = []) \<and>
     (\<forall>d \<in> set news. activeAI (argCategoryKey c) d) \<and>
     subseq (map candidateOf news)
       (take (nat (max 0 (argTargetTotal c - countDocuments db1 (argCategoryKey c))))
          (parseAiText (runtime w) (openaiAnswer w) (argChildName c) (argChildAge c)
             (argTargetTotal c - countDocuments db (argCategoryKey c)))) \<and>
     int (length news) \<le> max 0 (argTargetTotal c - countDocuments db1 (argCategoryKey c)) \<and>
     int (length news) \<le> argTargetTotal c - countDocuments db (argCategoryKey c)"
proof -
  define need where "need = argTargetTotal c - countDocuments db (argCategoryKey c)"
  define parsed where
    "parsed = parseAiText (runtime w) (openaiAnswer w) (argChildName c) (argChildAge c) need"
  define remainingNeed where
    "remainingNeed = max 0 (argTargetTotal c - countDocuments db1 (argCategoryKey c))"
  have need0: "0 \<le> need" "max 0 need = need" using below by (simp_all add: need_def)
  have ag: "afterGeneration w c cat db =
      (if storeRejects w CountExisting then Done (Inl StoreError)
       else if need \<le> 0 \<or> \<not> openaiKey w \<or> parsed = [] then Done (Inr [])
       else AwaitCountLatest parsed)"
    using need0(2) unfolding afterGeneration_cases parsed_def need_def by (simp add: Let_def)
  consider (rejected) "afterGeneration w c cat db = Done (Inl StoreError)"
    | (none) "afterGeneration w c cat db = Done (Inr [])"
    | (parsed) "afterGeneration w c cat db = AwaitCountLatest parsed" "0 < need"
    using ag by (auto split: if_splits)
  then have "\<exists>news. finalStore (run w c cat db1 (afterGeneration w c cat db)) = db1 @ news \<and>
     (result (run w c cat db1 (afterGeneration w c cat db)) = Inr news \<or>
      result (run w c cat db1 (afterGeneration w c cat db)) = Inl StoreError \<and> news = []) \<and>
     (\<forall>d \<in> set news. activeAI (argCategoryKey c) d) \<and>
     subseq (map candidateOf news) (take (nat remainingNeed) parsed) \<and>
     int (length news) \<le> remainingNeed \<and> int (length news) \<le> need"
  proof cases
    case rejected
    then show ?thesis using need0(1) by (simp add: remainingNeed_def)
  next
    case none
    then show ?thesis using need0(1) by (simp add: remainingNeed_def)
  next
    case parsed
    obtain news where news:
      "finalStore (run w c cat db1 (AwaitCountLatest parsed)) = db1 @ news"
      "result (run w c cat db1 (AwaitCountLatest parsed)) = Inr news \<or>
       result (run w c cat db1 (AwaitCountLatest parsed)) = Inl StoreError \<and> news = []"
      "\<forall>d \<in> set news. activeAI (argCategoryKey c) d"
      "subseq (map candidateOf news) (take (nat remainingNeed) parsed)"
      using run_recount [of w c cat db1 parsed] unfolding remainingNeed_def by blast
    have len: "length news \<le> length (take (nat remainingNeed) parsed)"
      using subseq_length_le [OF news(4)] by simp
    have rem0: "0 \<le> remainingNeed" by (simp add: remainingNeed_def)
    have "length (take (nat remainingNeed) parsed) \<le> nat remainingNeed" by simp
    with len have "length news \<le> nat remainingNeed" by linarith
    with rem0 have l1: "int (length news) \<le> remainingNeed" by linarith
    have "int (length parsed) \<le> need"
      unfolding parsed_def using parsed(2) by (rule parseAiText_length)
    moreover have "length (take (nat remainingNeed) parsed) \<le> length parsed" by simp
    ultimately have l2: "int (length news) \<le> need" using len by linarith
    show ?thesis unfolding parsed(1) using news l1 l2 by (intro exI [of _ news]) simp
  qed
  then show ?thesis unfolding remainingNeed_def parsed_def need_def .
qed

lemma countDocuments_append:
  "countDocuments (db @ news) key = countDocuments db key + int (length (filter (activeAI key) news))"
  by (simp add: countDocuments_def)


lemma run_satisfied:
  assumes "argTargetTotal c \<le> countDocuments db (argCategoryKey c)"
  shows "run w c cat db AwaitCountExisting =
     \<lparr> result = (if storeRejects w CountExisting then Inl StoreError else Inr []),
       finalStore = db, trace = [StoreCount] \<rparr>"
proof -
  have nd: "\<not> isDone AwaitCountExisting" by (simp add: isDone_def)
  from assms have "step w c cat db AwaitCountExisting =
      (db, Done (if storeRejects w CountExisting then Inl StoreError else Inr []), StoreCount)"
    by (simp add: Let_def)
  from run_step [OF nd this] show ?thesis by simp
qed

subsection \<open>Titles\<close>

lemma findDuplicate_None:
  "findDuplicate db ttl key = None \<longleftrightarrow> ttl \<notin> set (activeTitles key db)"
  by (auto simp: findDuplicate_def activeTitles_def find_None_iff)

lemma activeTitles_append:
  "activeTitles key (db @ news) = activeTitles key db @ activeTitles key news"
  by (simp add: activeTitles_def)

lemma activeTitles_single:
  "activeTitles key [d] =
     (if generatedForCollection d = Some key \<and> isActive d then [s_title d] else [])"
  by (simp add: activeTitles_def)

lemma title_storyData [simp]:
  "s_title (storyData c cat s) = title s"
  "s_title (createStory db sd) = s_title sd"
  "s_title (sd \<lparr> audioUrl := u \<rparr>) = s_title sd"
  "s_title (sd \<lparr> audioPending := p \<rparr>) = s_title sd"
  by (simp_all add: storyData_def createStory_def)

lemma added_refl: "added key db db"
  unfolding added_def by (intro exI [of _ "[]"]) (simp add: activeTitles_def)

lemma added_snoc:
  assumes "added key db0 db" and "s_title d \<notin> set (activeTitles key db)"
  shows "added key db0 (db @ [d])"
proof -
  from assms(1) obtain news where news: "db = db0 @ news" "distinct (activeTitles key news)"
    "set (activeTitles key news) \<inter> set (activeTitles key db0) = {}"
    unfolding added_def by blast
  from assms(2) news(1) have fresh: "s_title d \<notin> set (activeTitles key news)"
    "s_title d \<notin> set (activeTitles key db0)"
    by (simp_all add: activeTitles_append)
  have "distinct (activeTitles key (news @ [d]))"
    using news(2) fresh(1) by (auto simp: activeTitles_append activeTitles_single)
  moreover have "set (activeTitles key (news @ [d])) \<inter> set (activeTitles key db0) = {}"
    using news(3) fresh(2) by (auto simp: activeTitles_append activeTitles_single)
  ultimately show ?thesis unfolding added_def using news(1)
    by (intro exI [of _ "news @ [d]"]) simp
qed

lemma freshInv_added: "freshInv key db0 db t \<Longrightarrow> added key db0 db"
  by (cases "(key, db0, db, t)" rule: freshInv.cases) simp_all

lemma freshInv_loopHead [simp]: "freshInv key db0 db (loopHead i todo saved) = added key db0 db"
  by (simp add: loopHead_def)

lemma freshInv_step:
  assumes "freshInv key db0 db t" and "key = argCategoryKey c" and "step w c cat db t = (db', t', e)"
  shows "freshInv key db0 db' t'"
proof (cases "(w, c, cat, db, t)" rule: step.cases)
  case (5 w0 c0 cat0 db1 i s todo saved)
  then show ?thesis using assms
    by (auto simp: findDuplicate_None split: if_splits option.splits)
next
  case (7 w0 c0 cat0 db1 i s todo saved)
  then show ?thesis using assms
    by (auto simp: Let_def split: if_splits option.splits)
next
  case (9 w0 c0 cat0 db1 i s todo saved)
  then show ?thesis using assms
    by (auto simp: Let_def split: if_splits tts_outcome.splits)
next
  case (10 w0 c0 cat0 db1 i sd todo saved)
  then show ?thesis using assms
    by (auto simp: Let_def added_snoc split: if_splits)
qed (use assms in \<open>auto simp: Let_def dest: freshInv_added split: if_splits\<close>)

lemma run_added:
  assumes "freshInv (argCategoryKey c) db0 db t"
  shows "added (argCategoryKey c) db0 (finalStore (run w c cat db t))"
proof -
  have "freshInv (argCategoryKey c) db0 (finalStore (run w c cat db t))
          (Done (result (run w c cat db t)))"
    by (rule run_invariant [where I = "freshInv (argCategoryKey c) db0", OF assms])
       (rule freshInv_step [OF _ refl])
  then show ?thesis by simp
qed

lemma generate_added:
  "added (argCategoryKey c) db (finalStore (generateCategoryStories w c db))"
proof (cases "lookupCategory (argCategoryKey c)")
  case None
  then show ?thesis by (simp add: generateCategoryStories_def added_refl)
next
  case (Some cat)
  have "freshInv (argCategoryKey c) db db AwaitCountExisting" by (simp add: added_refl)
  from run_added [OF this] Some show ?thesis by (simp add: generateCategoryStories_def)
qed

lemma added_distinct:
  "added key db0 db \<Longrightarrow> distinct (activeTitles key db0) \<Longrightarrow> distinct (activeTitles key db)"
  unfolding added_def by (auto simp: activeTitles_append)

subsection \<open>Concrete runs\<close>

lemma lookup_learn: "lookupCategory (js ''learn-stories'') = Some learnCategory"
  by (simp add: lookupCategory_def STORY_CATEGORIES_def learnCategory_def js_def)

lemma fox_parse:
  "parseAiText (natRuntime foxParse) foxJson (js ''friend'') 5 1 =
     [\<lparr> title = js ''Brave Fox'', description = js ''A tale'',
        content = js ''Once there was a fox.'', duration = 12,
        ageRange = \<lparr> ar_min = 3, ar_max = 7 \<rparr> \<rparr>]"
  by (simp add: foxJson_run deriveAgeRange_def)

lemmas engine_eval = foxWorld_def learnCall_def countDocuments_def activeAI_def loopHead_def
  findDuplicate_def findWithAudio_def storyData_def createStory_def freshId_def slice0_def
  learnCategory_def foxStory_def isDone_def Let_def

lemma fox_solo:
  "generateCategoryStories foxWorld learnCall [] =
     \<lparr> result = Inr [foxStory 1], finalStore = [foxStory 1],
       trace = [StoreCount, TextGeneration, StoreCount, StoreFindOne, StoreFindOne, StoreCreate] \<rparr>"
proof -
  have key: "argCategoryKey learnCall = js ''learn-stories''" by (simp add: learnCall_def)
  show ?thesis
    unfolding generateCategoryStories_def key lookup_learn option.case
    using fox_parse by (simp add: run.simps engine_eval)
qed

lemma fox_race:
  "interleave (foxWorld, learnCall, learnCategory) (foxWorld, learnCall, learnCategory) raceSchedule
     ([], AwaitCountExisting, AwaitCountExisting) =
   ([foxStory 1, foxStory 2], Done (Inr [foxStory 1]), Done (Inr [foxStory 2]))"
  using fox_parse
  by (simp add: raceSchedule_def) (simp add: engine_eval)


lemma owl_satisfied: "argTargetTotal learnCall \<le> countDocuments [owlStory] (argCategoryKey learnCall)"
  by (simp add: learnCall_def countDocuments_def activeAI_def owlStory_def)

lemma owl_no_duplicate:
  "findDuplicate [owlStory] (js ''Brave Fox'') (argCategoryKey learnCall) = None"
  by (simp add: findDuplicate_def owlStory_def learnCall_def js_def)

lemma fox_parsed:
  "parseAiText (runtime foxWorld) (openaiAnswer foxWorld) (argChildName learnCall)
     (argChildAge learnCall)
     (argTargetTotal learnCall - countDocuments [] (argCategoryKey learnCall)) =
   [candidateOf (foxStory 1)]"
  using fox_parse by (simp add: foxWorld_def learnCall_def countDocuments_def candidateOf_def foxStory_def)

lemma owl_recount:
  "result (run foxWorld learnCall learnCategory [owlStory]
     (AwaitCountLatest [candidateOf (foxStory 1)])) = Inr []"
  by (simp add: run.simps engine_eval owlStory_def)

lemma fox_satisfied: "argTargetTotal learnCall \<le> countDocuments [foxStory 1] (argCategoryKey learnCall)"
  by (simp add: engine_eval)

subsection \<open>The claims about the engine\<close>

text \<open>
  C1. For a known collection key and a target not below the count of active
  AI-generated records at the start of the call, a call of \<open>generateCategoryStories\<close>
  that runs alone leaves the store as it was, followed by at most
  \<open>targetTotal - existingCount\<close> new records, each active, AI-generated and of that
  collection; the active count of the collection does not decrease. Moreover, once
  the text generation has settled with a parsed list that is not empty, what the call
  awaits next is the second count, with that list; and whatever the store \<open>db1\<close> has
  become while the call awaited the generation, from there the call leaves \<open>db1\<close>
  followed by at most \<open>max(0, targetTotal - latestCount)\<close> new records (and by at
  most \<open>targetTotal - existingCount\<close>), built in order from candidates among the
  first \<open>max(0, targetTotal - latestCount)\<close> of the parsed list, \<open>latestCount\<close>
  being the count on \<open>db1\<close>; when that shortfall is zero it writes nothing and
  returns the empty list. The call that runs alone is the case \<open>db1 = db\<close>.
\<close>

theorem replenish_bounded_and_rechecked:
  assumes "lookupCategory (argCategoryKey c) = Some cat"
    and "countDocuments db (argCategoryKey c) \<le> argTargetTotal c"
  shows "(\<exists>news. finalStore (generateCategoryStories w c db) = db @ news \<and>
            (result (generateCategoryStories w c db) = Inr news \<or>
             result (generateCategoryStories w c db) = Inl StoreError \<and> news = []) \<and>
            int (length news) \<le> argTargetTotal c - countDocuments db (argCategoryKey c) \<and>
            (\<forall>d \<in> set news. activeAI (argCategoryKey c) d) \<and>
            countDocuments db (argCategoryKey c) \<le>
              countDocuments (finalStore (generateCategoryStories w c db)) (argCategoryKey c))
       \<and> (\<not> storeRejects w CountExisting \<and>
            countDocuments db (argCategoryKey c) < argTargetTotal c \<and> openaiKey w \<and>
            parseAiText (runtime w) (openaiAnswer w) (argChildName c) (argChildAge c)
              (argTargetTotal c - countDocuments db (argCategoryKey c)) \<noteq> [] \<longrightarrow>
            afterGeneration w c cat db =
              AwaitCountLatest
                (parseAiText (runtime w) (openaiAnswer w) (argChildName c) (argChildAge c)
                   (argTargetTotal c - countDocuments db (argCategoryKey c))))
       \<and> result (generateCategoryStories w c db) =
           result (run w c cat db (afterGeneration w c cat db))
       \<and> finalStore (generateCategoryStories w c db) =
           finalStore (run w c cat db (afterGeneration w c cat db))
       \<and> (\<exists>news. finalStore (run w c cat db1 (afterGeneration w c cat db)) = db1 @ news \<and>
            (result (run w c cat db1 (afterGeneration w c cat db)) = Inr news \<or>
             result (run w c cat db1 (afterGeneration w c cat db)) = Inl StoreError \<and> news = []) \<and>
            (\<forall>d \<in> set news. activeAI (argCategoryKey c) d) \<and>
            subseq (map candidateOf news)
              (take (nat (max 0 (argTargetTotal c - countDocuments db1 (argCategoryKey c))))
                 (parseAiText (runtime w) (openaiAnswer w) (argChildName c) (argChildAge c)
                    (argTargetTotal c - countDocuments db (argCategoryKey c)))) \<and>
            int (length news) \<le> max 0 (argTargetTotal c - countDocuments db1 (argCategoryKey c)) \<and>
            int (length news) \<le> argTargetTotal c - countDocuments db (argCategoryKey c) \<and>
            (argTargetTotal c \<le> countDocuments db1 (argCategoryKey c) \<longrightarrow> news = []))"
proof (intro conjI)
  obtain news where news: "finalStore (run w c cat db AwaitCountExisting) = db @ news"
    "result (run w c cat db AwaitCountExisting) = Inr news \<or>
     result (run w c cat db AwaitCountExisting) = Inl StoreError \<and> news = []"
    "\<forall>d \<in> set news. activeAI (argCategoryKey c) d"
    "int (length news) \<le> max 0 (argTargetTotal c - countDocuments db (argCategoryKey c))"
    using run_solo [of w c cat db] by blast
  have gen: "generateCategoryStories w c db = run w c cat db AwaitCountExisting"
    using assms(1) by (simp add: generateCategoryStories_def)
  have "int (length news) \<le> argTargetTotal c - countDocuments db (argCategoryKey c)"
    using news(4) assms(2) by simp
  moreover have "countDocuments db (argCategoryKey c) \<le> countDocuments (db @ news) (argCategoryKey c)"
    by (simp add: countDocuments_append)
  ultimately show "\<exists>news. finalStore (generateCategoryStories w c db) = db @ news \<and>
            (result (generateCategoryStories w c db) = Inr news \<or>
             result (generateCategoryStories w c db) = Inl StoreError \<and> news = []) \<and>
            int (length news) \<le> argTargetTotal c - countDocuments db (argCategoryKey c) \<and>
            (\<forall>d \<in> set news. activeAI (argCategoryKey c) d) \<and>
            countDocuments db (argCategoryKey c) \<le>
              countDocuments (finalStore (generateCategoryStories w c db)) (argCategoryKey c)"
    unfolding gen using news(1,2,3) by (intro exI [of _ news]) simp
next
  show "\<not> storeRejects w CountExisting \<and>
          countDocuments db (argCategoryKey c) < argTargetTotal c \<and> openaiKey w \<and>
          parseAiText (runtime w) (openaiAnswer w) (argChildName c) (argChildAge c)
            (argTargetTotal c - countDocuments db (argCategoryKey c)) \<noteq> [] \<longrightarrow>
        afterGeneration w c cat db =
          AwaitCountLatest
            (parseAiText (runtime w) (openaiAnswer w) (argChildName c) (argChildAge c)
               (argTargetTotal c - countDocuments db (argCategoryKey c)))"
  proof
    assume h: "\<not> storeRejects w CountExisting \<and>
          countDocuments db (argCategoryKey c) < argTargetTotal c \<and> openaiKey w \<and>
          parseAiText (runtime w) (openaiAnswer w) (argChildName c) (argChildAge c)
            (argTargetTotal c - countDocuments db (argCategoryKey c)) \<noteq> []"
    then have "max 0 (argTargetTotal c - countDocuments db (argCategoryKey c)) =
        argTargetTotal c - countDocuments db (argCategoryKey c)"
      by simp
    then show "afterGeneration w c cat db =
          AwaitCountLatest
            (parseAiText (runtime w) (openaiAnswer w) (argChildName c) (argChildAge c)
               (argTargetTotal c - countDocuments db (argCategoryKey c)))"
      using h unfolding afterGeneration_cases by (simp add: Let_def)
  qed
next
  show "result (generateCategoryStories w c db) =
      result (run w c cat db (afterGeneration w c cat db))"
    using assms(1) run_afterGeneration [of w c cat db] by (simp add: generateCategoryStories_def)
next
  show "finalStore (generateCategoryStories w c db) =
      finalStore (run w c cat db (afterGeneration w c cat db))"
    using assms(1) run_afterGeneration [of w c cat db] by (simp add: generateCategoryStories_def)
next
  let ?rem = "max 0 (argTargetTotal c - countDocuments db1 (argCategoryKey c))"
  let ?parsed = "parseAiText (runtime w) (openaiAnswer w) (argChildName c) (argChildAge c)
      (argTargetTotal c - countDocuments db (argCategoryKey c))"
  let ?out = "run w c cat db1 (afterGeneration w c cat db)"
  obtain news where news: "finalStore ?out = db1 @ news"
    "result ?out = Inr news \<or> result ?out = Inl StoreError \<and> news = []"
    "\<forall>d \<in> set news. activeAI (argCategoryKey c) d"
    "subseq (map candidateOf news) (take (nat ?rem) ?parsed)"
    "int (length news) \<le> ?rem"
    "int (length news) \<le> argTargetTotal c - countDocuments db (argCategoryKey c)"
    using run_regenerated [OF assms(2), of w cat db1] by blast
  from news(5) have "argTargetTotal c \<le> countDocuments db1 (argCategoryKey c) \<longrightarrow> news = []"
    by auto
  with news show "\<exists>news. finalStore ?out = db1 @ news \<and>
      (result ?out = Inr news \<or> result ?out = Inl StoreError \<and> news = []) \<and>
      (\<forall>d \<in> set news. activeAI (argCategoryKey c) d) \<and>
      subseq (map candidateOf news) (take (nat ?rem) ?parsed) \<and>
      int (length news) \<le> ?rem \<and>
      int (length news) \<le> argTargetTotal c - countDocuments db (argCategoryKey c) \<and>
      (argTargetTotal c \<le> countDocuments db1 (argCategoryKey c) \<longrightarrow> news = [])"
    by (intro exI [of _ news]) simp
qed

theorem replenish_bounded_and_rechecked_witness:
  "lookupCategory (argCategoryKey learnCall) = Some learnCategory
   \<and> countDocuments [] (argCategoryKey learnCall) \<le> argTargetTotal learnCall
   \<and> \<not> storeRejects foxWorld CountExisting
   \<and> countDocuments [] (argCategoryKey learnCall) < argTargetTotal learnCall
   \<and> openaiKey foxWorld
   \<and> parseAiText (runtime foxWorld) (openaiAnswer foxWorld) (argChildName learnCall)
        (argChildAge learnCall)
        (argTargetTotal learnCall - countDocuments [] (argCategoryKey learnCall)) =
      [candidateOf (foxStory 1)]
   \<and> afterGeneration foxWorld learnCall learnCategory [] = AwaitCountLatest [candidateOf (foxStory 1)]
   \<and> finalStore (generateCategoryStories foxWorld learnCall []) = [foxStory 1]
   \<and> (\<exists>news. finalStore (generateCategoryStories foxWorld learnCall []) = [] @ news \<and>
         int (length news) \<le> argTargetTotal learnCall - countDocuments [] (argCategoryKey learnCall))
   \<and> argTargetTotal learnCall \<le> countDocuments [owlStory] (argCategoryKey learnCall)
   \<and> findDuplicate [owlStory] (js ''Brave Fox'') (argCategoryKey learnCall) = None
   \<and> finalStore (run foxWorld learnCall learnCategory [owlStory]
        (afterGeneration foxWorld learnCall learnCategory [])) = [owlStory]
   \<and> result (run foxWorld learnCall learnCategory [owlStory]
        (afterGeneration foxWorld learnCall learnCategory [])) = Inr []"
proof -
  have known: "lookupCategory (argCategoryKey learnCall) = Some learnCategory"
    using lookup_learn by (simp add: learnCall_def)
  have below: "countDocuments [] (argCategoryKey learnCall) \<le> argTargetTotal learnCall"
    by (simp add: engine_eval)
  have short: "countDocuments [] (argCategoryKey learnCall) < argTargetTotal learnCall"
    by (simp add: engine_eval)
  have world: "\<not> storeRejects foxWorld CountExisting" "openaiKey foxWorld"
    by (simp_all add: foxWorld_def)
  note inst = replenish_bounded_and_rechecked [OF known below, of foxWorld "[owlStory]"]
  have after: "afterGeneration foxWorld learnCall learnCategory [] =
      AwaitCountLatest [candidateOf (foxStory 1)]"
    using inst world short fox_parsed by simp
  from inst have "\<exists>news. finalStore (generateCategoryStories foxWorld learnCall []) = [] @ news \<and>
         int (length news) \<le> argTargetTotal learnCall - countDocuments [] (argCategoryKey learnCall)"
    by blast
  moreover from inst owl_satisfied
  have "finalStore (run foxWorld learnCall learnCategory [owlStory]
          (afterGeneration foxWorld learnCall learnCategory [])) = [owlStory]"
    by auto
  moreover have "result (run foxWorld learnCall learnCategory [owlStory]
          (afterGeneration foxWorld learnCall learnCategory [])) = Inr []"
    unfolding after by (rule owl_recount)
  ultimately show ?thesis
    using known below short world fox_parsed after owl_satisfied owl_no_duplicate fox_solo
    by simp
qed

text \<open>
  C2. For a known collection key, when the count of active AI-generated records of the
  collection already reaches the target, the call returns the empty list, leaves the
  store as it is, and its only operation is the count: no text generation, no speech
  synthesis, no write. (Should the store reject the count, the call is rejected
  instead, with the same trace and store.)
\<close>

theorem replenish_noop_when_satisfied:
  assumes "lookupCategory (argCategoryKey c) = Some cat"
    and "argTargetTotal c \<le> countDocuments db (argCategoryKey c)"
  shows "generateCategoryStories w c db =
     \<lparr> result = (if storeRejects w CountExisting then Inl StoreError else Inr []),
       finalStore = db, trace = [StoreCount] \<rparr>"
  using assms by (simp add: generateCategoryStories_def run_satisfied)

theorem replenish_noop_when_satisfied_witness:
  "lookupCategory (argCategoryKey learnCall) = Some learnCategory
   \<and> argTargetTotal learnCall \<le> countDocuments [foxStory 1] (argCategoryKey learnCall)
   \<and> generateCategoryStories foxWorld learnCall [foxStory 1] =
       \<lparr> result = Inr [], finalStore = [foxStory 1], trace = [StoreCount] \<rparr>"
proof -
  have known: "lookupCategory (argCategoryKey learnCall) = Some learnCategory"
    using lookup_learn by (simp add: learnCall_def)
  have "generateCategoryStories foxWorld learnCall [foxStory 1] =
       \<lparr> result = Inr [], finalStore = [foxStory 1], trace = [StoreCount] \<rparr>"
    using replenish_noop_when_satisfied [OF known fox_satisfied, of foxWorld]
    by (simp add: foxWorld_def)
  then show ?thesis using known fox_satisfied by simp
qed

text \<open>
  C3, as the code has it. A call looks up, for each candidate, an active record of the
  collection with the candidate's title, and passes the candidate over when there is
  one. A call that runs alone therefore adds only records whose titles differ from
  each other and from the titles of the records that were active in the collection:
  a collection without two active records of the same title has none afterwards, also
  after a second call that starts when the first has settled. This is as far as the
  lookup reaches: nothing holds the store between the lookup and the insertion (the
  function is documented "no DB locks"), and two calls in flight together can both
  pass the lookup.
\<close>

theorem replenish_alone_adds_fresh_titles:
  "(findDuplicate db (title s) (argCategoryKey c) \<noteq> None \<and> \<not> storeRejects w (FindDuplicate i) \<longrightarrow>
      step w c cat db (AwaitFindDuplicate i (s # todo) saved) =
        (db, loopHead (i + 1) todo saved, StoreFindOne))
   \<and> added (argCategoryKey c) db (finalStore (generateCategoryStories w c db))
   \<and> (distinct (activeTitles (argCategoryKey c) db) \<longrightarrow>
        distinct (activeTitles (argCategoryKey c) (finalStore (generateCategoryStories w c db))) \<and>
        distinct (activeTitles (argCategoryKey c)
          (finalStore (generateCategoryStories w' c (finalStore (generateCategoryStories w c db))))))"
proof (intro conjI impI)
  assume "findDuplicate db (title s) (argCategoryKey c) \<noteq> None \<and> \<not> storeRejects w (FindDuplicate i)"
  then show "step w c cat db (AwaitFindDuplicate i (s # todo) saved) =
        (db, loopHead (i + 1) todo saved, StoreFindOne)"
    by auto
next
  show "added (argCategoryKey c) db (finalStore (generateCategoryStories w c db))"
    by (rule generate_added)
next
  assume d: "distinct (activeTitles (argCategoryKey c) db)"
  show first: "distinct (activeTitles (argCategoryKey c) (finalStore (generateCategoryStories w c db)))"
    using added_distinct [OF generate_added d] .
  show "distinct (activeTitles (argCategoryKey c)
          (finalStore (generateCategoryStories w' c (finalStore (generateCategoryStories w c db)))))"
    using added_distinct [OF generate_added first] .
qed

theorem replenish_alone_adds_fresh_titles_witness:
  "distinct (activeTitles (argCategoryKey learnCall) [])
   \<and> activeTitles (argCategoryKey learnCall)
        (finalStore (generateCategoryStories foxWorld learnCall
           (finalStore (generateCategoryStories foxWorld learnCall [])))) = [js ''Brave Fox'']
   \<and> findDuplicate [foxStory 1] (title (candidateOf (foxStory 1))) (argCategoryKey learnCall) \<noteq> None
   \<and> step foxWorld learnCall learnCategory [foxStory 1]
        (AwaitFindDuplicate 0 [candidateOf (foxStory 1)] []) = ([foxStory 1], Done (Inr []), StoreFindOne)"
proof -
  have known: "lookupCategory (argCategoryKey learnCall) = Some learnCategory"
    using lookup_learn by (simp add: learnCall_def)
  have none: "distinct (activeTitles (argCategoryKey learnCall) [])"
    by (simp add: activeTitles_def)
  have dup: "findDuplicate [foxStory 1] (title (candidateOf (foxStory 1))) (argCategoryKey learnCall) \<noteq> None"
    by (simp add: findDuplicate_def candidateOf_def foxStory_def learnCall_def)
  have accepts: "\<not> storeRejects foxWorld (FindDuplicate 0)" by (simp add: foxWorld_def)
  note inst = replenish_alone_adds_fresh_titles [where c = learnCall and db = "[]" and w = foxWorld
      and w' = foxWorld]
  have second: "generateCategoryStories foxWorld learnCall [foxStory 1] =
       \<lparr> result = Inr [], finalStore = [foxStory 1], trace = [StoreCount] \<rparr>"
    using run_satisfied [OF fox_satisfied, of foxWorld learnCategory] known
    by (simp add: generateCategoryStories_def foxWorld_def)
  have "distinct (activeTitles (argCategoryKey learnCall)
        (finalStore (generateCategoryStories foxWorld learnCall
           (finalStore (generateCategoryStories foxWorld learnCall [])))))"
    using inst none by blast
  moreover have e1: "finalStore (generateCategoryStories foxWorld learnCall []) = [foxStory 1]"
    using fox_solo by simp
  moreover have e2: "finalStore (generateCategoryStories foxWorld learnCall [foxStory 1]) = [foxStory 1]"
    using second by simp
  ultimately have twice: "activeTitles (argCategoryKey learnCall)
        (finalStore (generateCategoryStories foxWorld learnCall
           (finalStore (generateCategoryStories foxWorld learnCall [])))) = [js ''Brave Fox'']"
    unfolding e1 e2 by (simp add: activeTitles_def foxStory_def learnCall_def)
  have "step foxWorld learnCall learnCategory [foxStory 1]
        (AwaitFindDuplicate 0 [candidateOf (foxStory 1)] []) =
          ([foxStory 1], loopHead (0 + 1) [] [], StoreFindOne)"
    using replenish_alone_adds_fresh_titles [where c = learnCall and db = "[foxStory 1]"
        and w = foxWorld and s = "candidateOf (foxStory 1)" and i = 0 and todo = "[]"
        and saved = "[]" and cat = learnCategory] dup accepts
    by blast
  then have skipped: "step foxWorld learnCall learnCategory [foxStory 1]
        (AwaitFindDuplicate 0 [candidateOf (foxStory 1)] []) = ([foxStory 1], Done (Inr []), StoreFindOne)"
    by (simp add: loopHead_def)
  show ?thesis using none twice dup skipped by simp
qed

text \<open>
  C3, as it was stated, fails for two calls in flight together: two calls for
  \<open>learn-stories\<close> with target 1 start on the empty store and receive the same
  generated story; their steps alternate; both settle with a saved record, and the
  collection holds two active records with the same title.
\<close>

theorem race_leaves_same_title_twice:
  "interleave (foxWorld, learnCall, learnCategory) (foxWorld, learnCall, learnCategory) raceSchedule
     ([], AwaitCountExisting, AwaitCountExisting) =
     ([foxStory 1, foxStory 2], Done (Inr [foxStory 1]), Done (Inr [foxStory 2]))
   \<and> argTargetTotal learnCall = 1
   \<and> activeTitles (argCategoryKey learnCall) [foxStory 1, foxStory 2] =
       [js ''Brave Fox'', js ''Brave Fox'']
   \<and> \<not> distinct (activeTitles (argCategoryKey learnCall) [foxStory 1, foxStory 2])"
  using fox_race by (simp add: activeTitles_def foxStory_def learnCall_def)

text \<open>
  C9. A call never changes or removes a record that was in the store: every step of
  a call leaves the store as it was, with at most records added at the end. So does a
  whole call, whatever the provider answers and whatever the store rejects, and so do
  two calls whose steps interleave.
\<close>

theorem replenish_only_inserts:
  "(\<exists>news. fst (step w c cat db t) = db @ news)
   \<and> (\<exists>news. finalStore (generateCategoryStories w c db) = db @ news)
   \<and> (\<exists>news. fst (interleave A B schedule (db, ta, tb)) = db @ news)"
proof (intro conjI)
  obtain db' t' e where "step w c cat db t = (db', t', e)" by (cases "step w c cat db t") auto
  then show "\<exists>news. fst (step w c cat db t) = db @ news"
    using step_appends [of w c cat db t db' t' e] by simp
next
  show "\<exists>news. finalStore (generateCategoryStories w c db) = db @ news"
    using run_appends [of w c _ db AwaitCountExisting]
    by (cases "lookupCategory (argCategoryKey c)") (simp_all add: generateCategoryStories_def)
next
  show "\<exists>news. fst (interleave A B schedule (db, ta, tb)) = db @ news"
    by (rule interleave_appends)
qed

section \<open>Properties of the provider gateway\<close>








section \<open>Properties of the consumption hook\<close>

lemma find_sid: "find (\<lambda>s. sid s = i) db = Some found \<Longrightarrow> sid found = i \<and> found \<in> set db"
  by (induction db) (auto split: if_splits)

lemma find_active_sid:
  "find (\<lambda>s. sid s = i \<and> isActive s) db = Some found \<Longrightarrow> sid found = i \<and> isActive found \<and> found \<in> set db"
  by (induction db) (auto split: if_splits)

lemma save_same:
  assumes "distinct (map sid db)" and "found \<in> set db"
  shows "save db (bumpCompletions (load found)) = db"
proof -
  have "s \<in> set db \<Longrightarrow> sid s = sid found \<Longrightarrow> s = found" for s
    using assms by (meson distinct_map inj_onD)
  then have "map (\<lambda>s. if sid s = sid found then found else s) db = map (\<lambda>s. s) db"
    by (intro map_cong) auto
  then show ?thesis by (simp add: save_def bumpCompletions_def load_def cong: if_cong)
qed

text \<open>
  The branch for an AI-generated record of a collection. \<open>routes/stories.js\<close>
  deactivates the record and \<open>routes/child.js\<close> removes it; each starts, without
  awaiting it, one call for the record's collection with target 1. The first passes
  the stored minimum age, raised to 3 at least; the second the child's own age.
\<close>

lemma hook_retires_and_schedules:
  assumes "isActive found" and "isAIGenerated found"
    and "generatedForCollection found = Some key" and "key \<noteq> []"
  shows "findById db i = Some found \<Longrightarrow>
           storiesComplete db i =
             \<lparr> h_store = save (save db (bumpCompletions (load found)))
                           ((bumpCompletions (load found))
                              \<lparr> declared := found \<lparr> isActive := False \<rparr> \<rparr>),
               h_response = Completed,
               h_scheduled = Some \<lparr> argCategoryKey = key, argChildName = js ''friend'',
                                     argChildAge = max 3 (ar_min (s_ageRange found)),
                                     argTargetTotal = 1 \<rparr> \<rparr>"
    and "findActiveById db i = Some found \<Longrightarrow>
           childComplete db name age activityFound i =
             \<lparr> h_store = deleteOne db (sid found), h_response = Completed,
               h_scheduled = Some \<lparr> argCategoryKey = key, argChildName = orElse name (js ''friend''),
                                     argChildAge = (if age = 0 then 5 else age),
                                     argTargetTotal = 1 \<rparr> \<rparr>"
  using assms
  by (simp_all add: storiesComplete_def childComplete_def aiCollection_def bumpCompletions_def
        load_def regenerationAge_def Let_def)

text \<open>
  The branch for any other record: nothing is scheduled. The record is saved, but the
  counter the handlers raise is \<open>stats.completions\<close>, which the schema does not
  declare: no declared counter of any record changes, and in a store with distinct
  identifiers the save leaves the store as it was.
\<close>

lemma hook_no_regeneration:
  assumes "aiCollection found = None" and "isActive found"
  shows "findById db i = Some found \<Longrightarrow>
           h_scheduled (storiesComplete db i) = None \<and>
           h_store (storiesComplete db i) = save db (bumpCompletions (load found))"
    and "findActiveById db i = Some found \<Longrightarrow>
           h_scheduled (childComplete db name age activityFound i) = None \<and>
           h_store (childComplete db name age activityFound i) = save db (bumpCompletions (load found))"
  using assms
  by (simp_all add: storiesComplete_def childComplete_def bumpCompletions_def load_def Let_def)

lemma hook_leaves_store:
  assumes "aiCollection found = None" and "isActive found" and "distinct (map sid db)"
  shows "findById db i = Some found \<Longrightarrow> h_store (storiesComplete db i) = db"
    and "findActiveById db i = Some found \<Longrightarrow>
           h_store (childComplete db name age activityFound i) = db"
proof -
  show "h_store (storiesComplete db i) = db" if f: "findById db i = Some found"
  proof -
    have "found \<in> set db" using f find_sid [of i db found] by (simp add: findById_def)
    then show ?thesis
      using hook_no_regeneration(1) [OF assms(1,2) f] save_same [OF assms(3)] by simp
  qed
  show "h_store (childComplete db name age activityFound i) = db"
    if f: "findActiveById db i = Some found"
  proof -
    have "found \<in> set db" using f find_active_sid [of i db found] by (simp add: findActiveById_def)
    then show ?thesis
      using hook_no_regeneration(2) [OF assms(1,2) f] save_same [OF assms(3)] by simp
  qed
qed

text \<open>
  C7. The part of the claim about AI-generated records of a collection holds
  (\<open>hook_retires_and_schedules\<close>), and nothing is scheduled for the other records
  (\<open>hook_no_regeneration\<close>). Their completion counter, though, is not persisted:
  the run below completes the hand-authored story of \<open>seed.js\<close> through each handler,
  and the store afterwards is the store before, with \<open>stats.totalCompletions\<close> still 0.
\<close>

theorem completion_counter_not_persisted:
  "storiesComplete [seedStory] 7 =
     \<lparr> h_store = [seedStory], h_response = Completed, h_scheduled = None \<rparr>
   \<and> childComplete [seedStory] (js ''Ann'') 5 False 7 =
     \<lparr> h_store = [seedStory], h_response = Completed, h_scheduled = None \<rparr>
   \<and> map totalCompletions [seedStory] = [0]
   \<and> adhocCompletions (bumpCompletions (load seedStory)) = Some 1"
  by (simp add: storiesComplete_def childComplete_def findById_def findActiveById_def
        aiCollection_def bumpCompletions_def load_def save_def seedStory_def Let_def)

end
